theory Spec2Isabelle
  imports Complex_Main
begin

section \<open>JavaScript values and strings\<close>

text \<open>
  The sources are three JavaScript request handlers:
  \<^item> \<^verbatim>\<open>api/update-batch-products.js\<close>, the batch run that matches select options by
    normalised text and leaves an unmatched select field out of the payload
    (called the strict variant below);
  \<^item> an earlier revision of the same batch run (an unnamed source file) that matches
    select options by their exact text and writes the raw package-size text when
    nothing matches (the lenient variant);
  \<^item> \<^verbatim>\<open>api/update-single-product.js\<close>, the single-record endpoint.

  Strings are modelled as lists of 8-bit characters and stand for ASCII text: the
  character classes \<^verbatim>\<open>[A-Z]\<close>, \<^verbatim>\<open>\d\<close> and \<^verbatim>\<open>\w\<close> are ASCII classes in JavaScript
  too, while \<^verbatim>\<open>\s\<close>, \<^verbatim>\<open>trim\<close> and \<^verbatim>\<open>toLowerCase\<close> are modelled on their ASCII part
  (tab, line feed, vertical tab, form feed, carriage return, space; A-Z).
  A property that may be absent from an object is an \<open>option\<close>; a variable that
  may hold \<^verbatim>\<open>undefined\<close> or \<^verbatim>\<open>null\<close> besides a value is a \<open>js\<close>.
\<close>

datatype 'a js = Undefined | Null | Val 'a

type_synonym number = rat

definition of_field :: "'a option \<Rightarrow> 'a js" where
  \<comment> \<open>reading a property: an absent one reads as \<^verbatim>\<open>undefined\<close>\<close>
  "of_field f = (case f of None \<Rightarrow> Undefined | Some v \<Rightarrow> Val v)"

definition code_unit :: "char \<Rightarrow> nat" where
  "code_unit c = of_char c"

definition is_upper :: "char \<Rightarrow> bool" where
  \<comment> \<open>\<^verbatim>\<open>[A-Z]\<close>\<close>
  "is_upper c = (65 \<le> code_unit c \<and> code_unit c \<le> 90)"

definition is_lower :: "char \<Rightarrow> bool" where
  \<comment> \<open>\<^verbatim>\<open>[a-z]\<close>\<close>
  "is_lower c = (97 \<le> code_unit c \<and> code_unit c \<le> 122)"

definition is_digit :: "char \<Rightarrow> bool" where
  \<comment> \<open>\<^verbatim>\<open>\d\<close>\<close>
  "is_digit c = (48 \<le> code_unit c \<and> code_unit c \<le> 57)"

definition is_space :: "char \<Rightarrow> bool" where
  \<comment> \<open>\<^verbatim>\<open>\s\<close>, ASCII part\<close>
  "is_space c = (code_unit c \<in> {9, 10, 11, 12, 13, 32})"

definition is_word :: "char \<Rightarrow> bool" where
  \<comment> \<open>\<^verbatim>\<open>\w\<close>\<close>
  "is_word c = (is_upper c \<or> is_lower c \<or> is_digit c \<or> c = CHR ''_'')"

definition toLowerCase_char :: "char \<Rightarrow> char" where
  "toLowerCase_char c = (if is_upper c then char_of (code_unit c + 32) else c)"

definition toUpperCase_char :: "char \<Rightarrow> char" where
  "toUpperCase_char c = (if is_lower c then char_of (code_unit c - 32) else c)"

definition toLowerCase :: "string \<Rightarrow> string" where
  "toLowerCase s = map toLowerCase_char s"

definition trim :: "string \<Rightarrow> string" where
  "trim s = rev (dropWhile is_space (rev (dropWhile is_space s)))"

fun startsWith :: "string \<Rightarrow> string \<Rightarrow> bool" where
  "startsWith s [] = True"
| "startsWith [] (p # ps) = False"
| "startsWith (c # cs) (p # ps) = (c = p \<and> startsWith cs ps)"

fun includes_str :: "string \<Rightarrow> string \<Rightarrow> bool" where
  \<comment> \<open>\<^verbatim>\<open>s.includes(sub)\<close>\<close>
  "includes_str [] sub = (sub = [])"
| "includes_str (c # cs) sub = (startsWith (c # cs) sub \<or> includes_str cs sub)"

fun show_nat :: "nat \<Rightarrow> string" where
  \<comment> \<open>a length interpolated into a template string\<close>
  "show_nat n =
     (if n < 10 then [char_of (48 + n)]
      else show_nat (n div 10) @ [char_of (48 + n mod 10)])"

definition normalize_str :: "string option \<Rightarrow> string" where
  \<comment> \<open>\<^verbatim>\<open>normalize = (str) => (str || '').replace(/\s/g, '').toLowerCase()\<close>;
      \<open>None\<close> is \<^verbatim>\<open>null\<close> or \<^verbatim>\<open>undefined\<close>\<close>
  "normalize_str str =
     toLowerCase (filter (\<lambda>c. \<not> is_space c) (case str of None \<Rightarrow> [] | Some s \<Rightarrow> s))"

fun js_Map :: "('k \<times> 'v) list \<Rightarrow> ('k \<rightharpoonup> 'v) \<Rightarrow> ('k \<rightharpoonup> 'v)" where
  \<comment> \<open>\<^verbatim>\<open>new Map(entries)\<close>: the entries are set in order, a later one replaces an
      earlier one with the same key\<close>
  "js_Map [] m = m"
| "js_Map ((k, v) # es) m = js_Map es (m(k \<mapsto> v))"

section \<open>Variant rule engine\<close>

subsection \<open>The pattern \<^verbatim>\<open>/-\s*(z\d+|nb\d+)$/\<close>\<close>

definition digits1 :: "string \<Rightarrow> bool" where
  \<comment> \<open>\<^verbatim>\<open>\d+$\<close>: one or more digits up to the end of the input\<close>
  "digits1 s = (s \<noteq> [] \<and> list_all is_digit s)"

fun variant_code :: "string \<Rightarrow> bool" where
  \<comment> \<open>\<^verbatim>\<open>(z\d+|nb\d+)$\<close> against the whole of the remaining input\<close>
  "variant_code [] = False"
| "variant_code (c # cs) =
     (if c = CHR ''z'' then digits1 cs
      else if c = CHR ''n'' then
        (case cs of [] \<Rightarrow> False | d # ds \<Rightarrow> d = CHR ''b'' \<and> digits1 ds)
      else False)"

definition after_hyphen :: "string \<Rightarrow> string option" where
  \<comment> \<open>\<^verbatim>\<open>\s*(z\d+|nb\d+)$\<close> right after a hyphen; the code starts with a letter, so
      \<^verbatim>\<open>\s*\<close> has to take every white-space character in front of it; the result is
      capture group 1\<close>
  "after_hyphen s =
     (let r = dropWhile is_space s in if variant_code r then Some r else None)"

fun name_match :: "string \<Rightarrow> string option" where
  \<comment> \<open>\<^verbatim>\<open>internalName.match(/-\s*(z\d+|nb\d+)$/)\<close>: the leftmost hyphen from which the
      pattern reaches the end of the name; \<open>None\<close> is the \<^verbatim>\<open>null\<close> of no match,
      \<open>Some g\<close> carries \<^verbatim>\<open>nameMatch[1]\<close>\<close>
  "name_match [] = None"
| "name_match (c # cs) =
     (if c = CHR ''-'' then
        (case after_hyphen cs of Some g \<Rightarrow> Some g | None \<Rightarrow> name_match cs)
      else name_match cs)"

definition variantSuffix_of :: "string \<Rightarrow> string option" where
  \<comment> \<open>\<^verbatim>\<open>const variantSuffix = nameMatch ? nameMatch[1] : null\<close>\<close>
  "variantSuffix_of internalName = name_match internalName"

subsection \<open>Master records and the rule table\<close>

record mtb_fields =
  m_baseProductId :: "string option"
  m_verkoop_450g :: "number option"  \<comment> \<open>field \<^verbatim>\<open>Verkoop 450g (EUR/kg)\<close>, written with the euro sign\<close>
  m_verkoop_1kg :: "number option"  \<comment> \<open>field \<^verbatim>\<open>Verkoop 1kg (EUR/kg)\<close>\<close>
  m_nut_butter_175g :: "number option"  \<comment> \<open>field \<^verbatim>\<open>Nut Butter 175g (EUR/potje)\<close>\<close>
  m_nut_butter_365g :: "number option"  \<comment> \<open>field \<^verbatim>\<open>Nut Butter 365g (EUR/pot)\<close>\<close>
  m_baseProductGroup :: "string option option"
    \<comment> \<open>the group object and its \<^verbatim>\<open>name\<close>, read as
        \<^verbatim>\<open>mtbRecordFields.baseProductGroup?.name\<close> by the batch handlers\<close>
  m_countryOfOrigin :: "string option"
  m_Ingredients :: "string option"
  m_supplierProductName :: "string option"
  m_supplierProductUrl :: "string option"
  m_isOrganic :: "bool option"
  m_isRaw :: "bool option"
  m_isGeroosterd :: "bool option"
  m_isGebrand :: "bool option"
  m_isSalted :: "bool option"
  m_isNutbutterAvailable :: "bool option"

record variant_out =
  packageSize :: "string option"  \<comment> \<open>\<open>None\<close> is \<^verbatim>\<open>null\<close>\<close>
  sellingPrice :: "number js"
  weightGrams :: "nat option"  \<comment> \<open>\<open>None\<close> is \<^verbatim>\<open>null\<close>\<close>

definition variant_rule :: "mtb_fields \<Rightarrow> string option \<Rightarrow> variant_out" where
  \<comment> \<open>the \<^verbatim>\<open>if (variantSuffix === ...)\<close> chain of both batch handlers\<close>
  "variant_rule mtbRecordFields variantSuffix =
     (if variantSuffix = Some ''z450'' then
        \<lparr>packageSize = Some ''450g Bag'',
         sellingPrice = of_field (m_verkoop_450g mtbRecordFields),
         weightGrams = Some 600\<rparr>
      else if variantSuffix = Some ''z1000'' then
        \<lparr>packageSize = Some ''1000g Bag'',
         sellingPrice = of_field (m_verkoop_1kg mtbRecordFields),
         weightGrams = Some 1250\<rparr>
      else if variantSuffix = Some ''nb175'' then
        \<lparr>packageSize = Some ''175g Jar'',
         sellingPrice = of_field (m_nut_butter_175g mtbRecordFields),
         weightGrams = Some 400\<rparr>
      else if variantSuffix = Some ''nb365'' then
        \<lparr>packageSize = Some ''365g Jar'',
         sellingPrice = of_field (m_nut_butter_365g mtbRecordFields),
         weightGrams = Some 750\<rparr>
      else \<lparr>packageSize = None, sellingPrice = Null, weightGrams = None\<rparr>)"

definition variant_rule_single :: "mtb_fields \<Rightarrow> string option \<Rightarrow> variant_out" where
  \<comment> \<open>the same chain in \<^verbatim>\<open>api/update-single-product.js\<close>\<close>
  "variant_rule_single mtbFields variantSuffix =
     (if variantSuffix = Some ''z450'' then
        \<lparr>packageSize = Some ''450g Bag'',
         sellingPrice = of_field (m_verkoop_450g mtbFields),
         weightGrams = Some 600\<rparr>
      else if variantSuffix = Some ''z1000'' then
        \<lparr>packageSize = Some ''1kg Bag'',
         sellingPrice = of_field (m_verkoop_1kg mtbFields),
         weightGrams = Some 1250\<rparr>
      else if variantSuffix = Some ''nb175'' then
        \<lparr>packageSize = Some ''175g Jar'',
         sellingPrice = of_field (m_nut_butter_175g mtbFields),
         weightGrams = Some 400\<rparr>
      else if variantSuffix = Some ''nb365'' then
        \<lparr>packageSize = Some ''365g Jar'',
         sellingPrice = of_field (m_nut_butter_365g mtbFields),
         weightGrams = Some 750\<rparr>
      else \<lparr>packageSize = None, sellingPrice = Null, weightGrams = None\<rparr>)"

section \<open>Classifier\<close>

definition productType_of :: "string option \<Rightarrow> string option" where
  \<comment> \<open>\<^verbatim>\<open>packageSize?.includes("Bag")\<close> is \<^verbatim>\<open>undefined\<close>, hence falsy, on \<^verbatim>\<open>null\<close>\<close>
  "productType_of pkg =
     (case pkg of
        None \<Rightarrow> None
      | Some p \<Rightarrow>
          if includes_str p ''Bag'' then Some ''Nut Bag''
          else if includes_str p ''Jar'' then Some ''Nut Butter Jar''
          else None)"

definition baseProductGroupText :: "mtb_fields \<Rightarrow> string" where
  \<comment> \<open>\<^verbatim>\<open>mtbRecordFields.baseProductGroup?.name?.toLowerCase() || ''\<close>\<close>
  "baseProductGroupText mtbRecordFields =
     (case m_baseProductGroup mtbRecordFields of
        None \<Rightarrow> []
      | Some None \<Rightarrow> []
      | Some (Some n) \<Rightarrow> toLowerCase n)"

definition category_of :: "string option \<Rightarrow> string \<Rightarrow> string" where
  "category_of productType groupText =
     (if productType = Some ''Nut Butter Jar'' then ''Nut Butters''
      else if includes_str groupText ''mix'' then ''Mixes''
      else ''Whole Nuts'')"

definition category_single :: "string option \<Rightarrow> string option \<Rightarrow> string" where
  \<comment> \<open>\<^verbatim>\<open>api/update-single-product.js\<close>: the group field is read as a string,
      \<^verbatim>\<open>mtbRecord.fields.baseProductGroup?.toLowerCase() || ''\<close>\<close>
  "category_single productType baseProductGroup =
     category_of productType
       (case baseProductGroup of None \<Rightarrow> [] | Some g \<Rightarrow> toLowerCase g)"

section \<open>Allergen extractor\<close>

text \<open>
  \<^verbatim>\<open>ingredientsText.match(/\b([A-Z][A-Z\s]+)\b/g) || []\<close>: all matches, left to right,
  each search resuming where the previous match ended. At a start position the
  pattern needs a word boundary in front of a capital; \<^verbatim>\<open>[A-Z\s]+\<close> is greedy and
  gives characters back one at a time until a word boundary follows.
\<close>

definition word_opt :: "char option \<Rightarrow> bool" where
  \<comment> \<open>is there a word character here; \<open>None\<close> is the start or the end of the input\<close>
  "word_opt c = (case c of None \<Rightarrow> False | Some x \<Rightarrow> is_word x)"

definition boundary :: "char option \<Rightarrow> char option \<Rightarrow> bool" where
  \<comment> \<open>\<^verbatim>\<open>\b\<close> between two neighbouring positions\<close>
  "boundary prev nxt = (word_opt prev \<noteq> word_opt nxt)"

definition char_at :: "string \<Rightarrow> nat \<Rightarrow> char option" where
  "char_at s i = (if i < length s then Some (s ! i) else None)"

fun backtrack :: "string \<Rightarrow> nat \<Rightarrow> nat option" where
  \<comment> \<open>the longest \<open>k\<close>, at least 1 and at most the given bound, such that a word
      boundary follows the first \<open>k\<close> characters of \<open>cs\<close>\<close>
  "backtrack cs 0 = None"
| "backtrack cs (Suc k) =
     (if boundary (char_at cs k) (char_at cs (Suc k)) then Some (Suc k)
      else backtrack cs k)"

definition match_at :: "char option \<Rightarrow> string \<Rightarrow> nat option" where
  \<comment> \<open>the length of the match that starts at the head of the string, \<open>prev\<close> being
      the character in front of it\<close>
  "match_at prev s =
     (case s of
        [] \<Rightarrow> None
      | c # cs \<Rightarrow>
          if boundary prev (Some c) \<and> is_upper c then
            (case backtrack cs (length (takeWhile (\<lambda>x. is_upper x \<or> is_space x) cs)) of
               None \<Rightarrow> None
             | Some k \<Rightarrow> Some (Suc k))
          else None)"

fun match_all :: "char option \<Rightarrow> nat \<Rightarrow> string \<Rightarrow> string list" where
  \<comment> \<open>\<open>skip\<close> counts the characters still inside the previous match\<close>
  "match_all prev skip [] = []"
| "match_all prev skip (c # cs) =
     (if 0 < skip then match_all (Some c) (skip - 1) cs
      else
        (case match_at prev (c # cs) of
           None \<Rightarrow> match_all (Some c) 0 cs
         | Some n \<Rightarrow> take n (c # cs) # match_all (Some c) (n - 1) cs))"

definition allergenMatches :: "string option \<Rightarrow> string list" where
  \<comment> \<open>\<^verbatim>\<open>const ingredientsText = mtbRecordFields.Ingredients || ""\<close>\<close>
  "allergenMatches ingredients =
     match_all None 0 (case ingredients of None \<Rightarrow> [] | Some t \<Rightarrow> t)"

definition allergen_name :: "string \<Rightarrow> string" where
  \<comment> \<open>batch handlers:
      \<^verbatim>\<open>(allergen.trim().toLowerCase()).replace(/^\w/, c => c.toUpperCase())\<close>\<close>
  "allergen_name allergen =
     (case toLowerCase (trim allergen) of
        [] \<Rightarrow> []
      | c # cs \<Rightarrow> if is_word c then toUpperCase_char c # cs else c # cs)"

definition allergen_name_single :: "string \<Rightarrow> string" where
  \<comment> \<open>single-record endpoint:
      \<^verbatim>\<open>cleaned.charAt(0).toUpperCase() + cleaned.slice(1)\<close>\<close>
  "allergen_name_single allergen =
     (case toLowerCase (trim allergen) of
        [] \<Rightarrow> []
      | c # cs \<Rightarrow> toUpperCase_char c # cs)"

definition allergens_of :: "string option \<Rightarrow> string list" where
  \<comment> \<open>the names of the \<^verbatim>\<open>{ name: name }\<close> objects of the batch handlers\<close>
  "allergens_of ingredients = map allergen_name (allergenMatches ingredients)"

definition allergens_single :: "string option \<Rightarrow> string list" where
  "allergens_single ingredients = map allergen_name_single (allergenMatches ingredients)"

section \<open>Option resolver\<close>

record choice =
  c_name :: string
  c_id :: string

record field =
  f_name :: string
  f_type :: string
  f_choices :: "choice list"  \<comment> \<open>\<^verbatim>\<open>field.options.choices\<close>\<close>

record table =
  t_name :: string
  t_fields :: "field list"

type_synonym option_map = "string \<rightharpoonup> string"

type_synonym select_options = "string \<rightharpoonup> option_map"

datatype error = Error string | TypeError string

fun error_message :: "error \<Rightarrow> string" where
  "error_message (Error m) = m"
| "error_message (TypeError m) = m"

fun optionsMap_strict :: "field list \<Rightarrow> select_options \<Rightarrow> select_options" where
  \<comment> \<open>the \<^verbatim>\<open>for (const field of table.fields)\<close> loop of
      \<^verbatim>\<open>api/update-batch-products.js\<close>: keys are \<^verbatim>\<open>normalize(choice.name)\<close>\<close>
  "optionsMap_strict [] optionsMap = optionsMap"
| "optionsMap_strict (f # fs) optionsMap =
     (if f_type f = ''singleSelect'' \<or> f_type f = ''multipleSelects'' then
        optionsMap_strict fs
          (optionsMap(f_name f \<mapsto>
             js_Map (map (\<lambda>c. (normalize_str (Some (c_name c)), c_id c)) (f_choices f))
               Map.empty))
      else optionsMap_strict fs optionsMap)"

fun optionsMap_lenient :: "field list \<Rightarrow> select_options \<Rightarrow> select_options" where
  \<comment> \<open>the same loop in the earlier revision: keys are \<^verbatim>\<open>choice.name\<close> as it is\<close>
  "optionsMap_lenient [] optionsMap = optionsMap"
| "optionsMap_lenient (f # fs) optionsMap =
     (if f_type f = ''singleSelect'' \<or> f_type f = ''multipleSelects'' then
        optionsMap_lenient fs
          (optionsMap(f_name f \<mapsto>
             js_Map (map (\<lambda>c. (c_name c, c_id c)) (f_choices f)) Map.empty))
      else optionsMap_lenient fs optionsMap)"

definition table_not_found :: "string \<Rightarrow> error" where
  \<comment> \<open>\<^verbatim>\<open>new Error(`Table '${tableName}' not found in base schema.`)\<close>\<close>
  "table_not_found tableName =
     Error (''Table '' @ [CHR 0x27] @ tableName @ [CHR 0x27] @ '' not found in base schema.'')"

definition getSelectOptions :: "string + table list \<Rightarrow> string \<Rightarrow> error + select_options" where
  \<comment> \<open>the schema response is \<open>Inl body\<close> when \<^verbatim>\<open>response.ok\<close> is false, else the
      tables of the schema\<close>
  "getSelectOptions schema_response tableName =
     (case schema_response of
        Inl body \<Rightarrow> Inl (Error (''Failed to fetch base schema: '' @ body))
      | Inr tables \<Rightarrow>
          (case find (\<lambda>t. t_name t = tableName) tables of
             None \<Rightarrow> Inl (table_not_found tableName)
           | Some t \<Rightarrow> Inr (optionsMap_strict (t_fields t) Map.empty)))"

definition getSelectOptions_lenient ::
  "string + table list \<Rightarrow> string \<Rightarrow> error + select_options" where
  "getSelectOptions_lenient schema_response tableName =
     (case schema_response of
        Inl body \<Rightarrow> Inl (Error (''Failed to fetch base schema: '' @ body))
      | Inr tables \<Rightarrow>
          (case find (\<lambda>t. t_name t = tableName) tables of
             None \<Rightarrow> Inl (table_not_found tableName)
           | Some t \<Rightarrow> Inr (optionsMap_lenient (t_fields t) Map.empty)))"

datatype select_value = OptionRef string | Text "string js"
  \<comment> \<open>\<open>OptionRef i\<close> is the object \<^verbatim>\<open>{ id: i }\<close>; \<open>Text\<close> is a raw value\<close>

definition resolve_strict :: "select_options \<Rightarrow> string \<Rightarrow> string option \<Rightarrow> select_value option" where
  \<comment> \<open>\<^verbatim>\<open>if (selectOptions.F?.has(normalize(v))) updates.F = { id: selectOptions.F.get(normalize(v)) }\<close>;
      \<open>None\<close>: the property is not set\<close>
  "resolve_strict selectOptions fieldName v =
     (case selectOptions fieldName of
        None \<Rightarrow> None
      | Some m \<Rightarrow>
          (case m (normalize_str v) of
             None \<Rightarrow> None
           | Some i \<Rightarrow> Some (OptionRef i)))"

definition resolve_lenient :: "select_options \<Rightarrow> string \<Rightarrow> string option \<Rightarrow> select_value option" where
  \<comment> \<open>\<^verbatim>\<open>if (v && selectOptions.F?.has(v)) updates.F = { id: selectOptions.F.get(v) }\<close>;
      \<^verbatim>\<open>null\<close> and the empty string are falsy\<close>
  "resolve_lenient selectOptions fieldName v =
     (case v of
        None \<Rightarrow> None
      | Some t \<Rightarrow>
          if t = [] then None
          else
            (case selectOptions fieldName of
               None \<Rightarrow> None
             | Some m \<Rightarrow>
                 (case m t of
                    None \<Rightarrow> None
                  | Some i \<Rightarrow> Some (OptionRef i))))"

section \<open>Record reconciler\<close>

record spt_fields =
  s_linkedBaseProductId :: "string option"
  s_internalName :: "string option"
  s_sptId :: "string option"

record spt_record =
  r_id :: string
  r_fields :: spt_fields

record updates =
  u_packageSize :: "select_value option"  \<comment> \<open>\<open>None\<close>: the property is not set\<close>
  u_sellingPrice :: "number js"
  u_weightGrams :: "nat option"  \<comment> \<open>\<open>None\<close> is \<^verbatim>\<open>null\<close>\<close>
  u_productType :: "select_value option"
  u_category :: "select_value option"
  u_baseProductGroup :: "select_value option"
  u_countryOfOrigin :: "select_value option"
  u_allergens :: "string list"  \<comment> \<open>the \<^verbatim>\<open>name\<close> of each \<^verbatim>\<open>{ name: name }\<close>\<close>
  u_supplierProductName :: "string js"
  u_Ingredients :: "string js"
  u_supplierProductUrl :: "string js"
  u_isOrganic :: bool
  u_isRaw :: bool
  u_isGeroosterd :: bool
  u_isGebrand :: bool
  u_isSalted :: bool
  u_isNutbutterAvailable :: bool
  u_imageUrl :: string
  u_marketingName :: string

record payload =
  p_id :: string
  p_fields :: updates

definition or_false :: "bool option \<Rightarrow> bool" where
  \<comment> \<open>\<^verbatim>\<open>mtbRecordFields.flag || false\<close>\<close>
  "or_false b = (case b of None \<Rightarrow> False | Some v \<Rightarrow> v)"

definition imageUrl_of :: "string option \<Rightarrow> string" where
  \<comment> \<open>\<^verbatim>\<open>`/images/${sptId}.jpg`\<close>\<close>
  "imageUrl_of sptId =
     ''/images/'' @ (case sptId of None \<Rightarrow> ''undefined'' | Some i \<Rightarrow> i) @ ''.jpg''"

definition derive_strict :: "select_options \<Rightarrow> mtb_fields \<Rightarrow> string \<Rightarrow> string option \<Rightarrow> updates" where
  \<comment> \<open>the loop body of \<^verbatim>\<open>api/update-batch-products.js\<close> from the pattern match to
      \<^verbatim>\<open>updates.marketingName\<close>\<close>
  "derive_strict selectOptions mtbRecordFields internalName sptId =
     (let v = variant_rule mtbRecordFields (variantSuffix_of internalName);
          productType = productType_of (packageSize v);
          category = category_of productType (baseProductGroupText mtbRecordFields);
          baseProductGroupName =
            (case m_baseProductGroup mtbRecordFields of None \<Rightarrow> None | Some g \<Rightarrow> g)
      in \<lparr>u_packageSize = resolve_strict selectOptions ''packageSize'' (packageSize v),
          u_sellingPrice = sellingPrice v,
          u_weightGrams = weightGrams v,
          u_productType = resolve_strict selectOptions ''productType'' productType,
          u_category = resolve_strict selectOptions ''category'' (Some category),
          u_baseProductGroup =
            resolve_strict selectOptions ''baseProductGroup'' baseProductGroupName,
          u_countryOfOrigin =
            resolve_strict selectOptions ''countryOfOrigin'' (m_countryOfOrigin mtbRecordFields),
          u_allergens = allergens_of (m_Ingredients mtbRecordFields),
          u_supplierProductName = of_field (m_supplierProductName mtbRecordFields),
          u_Ingredients = of_field (m_Ingredients mtbRecordFields),
          u_supplierProductUrl = of_field (m_supplierProductUrl mtbRecordFields),
          u_isOrganic = or_false (m_isOrganic mtbRecordFields),
          u_isRaw = or_false (m_isRaw mtbRecordFields),
          u_isGeroosterd = or_false (m_isGeroosterd mtbRecordFields),
          u_isGebrand = or_false (m_isGebrand mtbRecordFields),
          u_isSalted = or_false (m_isSalted mtbRecordFields),
          u_isNutbutterAvailable = or_false (m_isNutbutterAvailable mtbRecordFields),
          u_imageUrl = imageUrl_of sptId,
          u_marketingName = internalName\<rparr>)"

definition derive_lenient :: "select_options \<Rightarrow> mtb_fields \<Rightarrow> string \<Rightarrow> string option \<Rightarrow> updates" where
  \<comment> \<open>the loop body of the earlier revision\<close>
  "derive_lenient selectOptions mtbRecordFields internalName sptId =
     (let v = variant_rule mtbRecordFields (variantSuffix_of internalName);
          productType = productType_of (packageSize v);
          category = category_of productType (baseProductGroupText mtbRecordFields)
      in \<lparr>u_packageSize =
            (case resolve_lenient selectOptions ''packageSize'' (packageSize v) of
               Some r \<Rightarrow> Some r
             | None \<Rightarrow>
                 Some (Text (case packageSize v of None \<Rightarrow> Null | Some t \<Rightarrow> Val t))),
          u_sellingPrice = sellingPrice v,
          u_weightGrams = weightGrams v,
          u_productType = resolve_lenient selectOptions ''productType'' productType,
          u_category = resolve_lenient selectOptions ''category'' (Some category),
          u_baseProductGroup = None,
          u_countryOfOrigin = Some (Text (of_field (m_countryOfOrigin mtbRecordFields))),
          u_allergens = allergens_of (m_Ingredients mtbRecordFields),
          u_supplierProductName = of_field (m_supplierProductName mtbRecordFields),
          u_Ingredients = of_field (m_Ingredients mtbRecordFields),
          u_supplierProductUrl = of_field (m_supplierProductUrl mtbRecordFields),
          u_isOrganic = or_false (m_isOrganic mtbRecordFields),
          u_isRaw = or_false (m_isRaw mtbRecordFields),
          u_isGeroosterd = or_false (m_isGeroosterd mtbRecordFields),
          u_isGebrand = or_false (m_isGebrand mtbRecordFields),
          u_isSalted = or_false (m_isSalted mtbRecordFields),
          u_isNutbutterAvailable = or_false (m_isNutbutterAvailable mtbRecordFields),
          u_imageUrl = imageUrl_of sptId,
          u_marketingName = internalName\<rparr>)"

type_synonym mtb_lookup = "string option \<rightharpoonup> mtb_fields"

definition mtbLookup_of :: "mtb_fields list \<Rightarrow> mtb_lookup" where
  \<comment> \<open>\<^verbatim>\<open>new Map(mtbData.records.map(rec => [rec.fields.baseProductId, rec.fields]))\<close>;
      the key of a record without the field is \<^verbatim>\<open>undefined\<close>, here \<open>None\<close>\<close>
  "mtbLookup_of records = js_Map (map (\<lambda>f. (m_baseProductId f, f)) records) Map.empty"

definition match_on_undefined :: error where
  \<comment> \<open>what \<^verbatim>\<open>internalName.match(...)\<close> throws when \<^verbatim>\<open>internalName\<close> is
      \<^verbatim>\<open>undefined\<close>; the wording of the message is the engine's\<close>
  "match_on_undefined =
     TypeError (''Cannot read properties of undefined (reading '' @ [CHR 0x27] @ ''match''
                 @ [CHR 0x27] @ '')'')"

definition reconcile_with ::
  "(mtb_fields \<Rightarrow> string \<Rightarrow> string option \<Rightarrow> updates) \<Rightarrow> mtb_lookup \<Rightarrow> spt_record
     \<Rightarrow> error + payload option" where
  \<comment> \<open>one turn of \<^verbatim>\<open>for (const sptRecord of recordsToUpdate)\<close>: \<open>Inr None\<close> is
      \<^verbatim>\<open>continue\<close>, \<open>Inr (Some p)\<close> is \<^verbatim>\<open>updatePayloads.push(p)\<close>, \<open>Inl e\<close> is a throw\<close>
  "reconcile_with derive mtbLookup sptRecord =
     (case s_linkedBaseProductId (r_fields sptRecord) of
        None \<Rightarrow> Inr None
      | Some linkedBaseId \<Rightarrow>
          if linkedBaseId = [] then Inr None
          else
            (case mtbLookup (Some linkedBaseId) of
               None \<Rightarrow> Inr None
             | Some mtbRecordFields \<Rightarrow>
                 (case s_internalName (r_fields sptRecord) of
                    None \<Rightarrow> Inl match_on_undefined
                  | Some internalName \<Rightarrow>
                      Inr (Some \<lparr>p_id = r_id sptRecord,
                                 p_fields = derive mtbRecordFields internalName
                                              (s_sptId (r_fields sptRecord))\<rparr>))))"

definition reconcile :: "select_options \<Rightarrow> mtb_lookup \<Rightarrow> spt_record \<Rightarrow> error + payload option" where
  "reconcile selectOptions = reconcile_with (derive_strict selectOptions)"

definition reconcile_lenient ::
  "select_options \<Rightarrow> mtb_lookup \<Rightarrow> spt_record \<Rightarrow> error + payload option" where
  "reconcile_lenient selectOptions = reconcile_with (derive_lenient selectOptions)"

fun reconcile_all ::
  "select_options \<Rightarrow> mtb_lookup \<Rightarrow> spt_record list \<Rightarrow> payload list \<Rightarrow> error + payload list" where
  \<comment> \<open>the whole loop, \<open>updatePayloads\<close> being the list built so far\<close>
  "reconcile_all selectOptions mtbLookup [] updatePayloads = Inr updatePayloads"
| "reconcile_all selectOptions mtbLookup (sptRecord # rest) updatePayloads =
     (case reconcile selectOptions mtbLookup sptRecord of
        Inl e \<Rightarrow> Inl e
      | Inr None \<Rightarrow> reconcile_all selectOptions mtbLookup rest updatePayloads
      | Inr (Some p) \<Rightarrow> reconcile_all selectOptions mtbLookup rest (updatePayloads @ [p]))"

section \<open>Batch orchestrator\<close>

record run_state =
  logDetails :: "string list"
  requests :: "payload list list"  \<comment> \<open>the bodies of the PATCH calls made, in order\<close>
  committed :: "payload list list"  \<comment> \<open>those the remote table accepted\<close>

type_synonym patch_service = "nat \<Rightarrow> payload list \<Rightarrow> string option"
  \<comment> \<open>the remote table: the answer to the PATCH call number \<open>k\<close> (from 0) with the given
      records; \<open>None\<close> when \<^verbatim>\<open>updateResponse.ok\<close>, else \<open>Some\<close> of the error body\<close>

definition push :: "string \<Rightarrow> run_state \<Rightarrow> run_state" where
  \<comment> \<open>\<^verbatim>\<open>logDetails.push(line)\<close>\<close>
  "push line st = st\<lparr>logDetails := logDetails st @ [line]\<rparr>"

function update_batches ::
  "patch_service \<Rightarrow> payload list \<Rightarrow> nat \<Rightarrow> run_state \<Rightarrow> error option \<times> run_state" where
  \<comment> \<open>\<^verbatim>\<open>for (let i = 0; i < updatePayloads.length; i += 10)\<close>, from the index \<open>i\<close> on;
      \<open>Some e\<close> is the \<^verbatim>\<open>throw\<close> that leaves the loop\<close>
  "update_batches patch updatePayloads i st =
     (if i < length updatePayloads then
        (let batch = take 10 (drop i updatePayloads);
             st1 = push (''Updating batch of '' @ show_nat (length batch) @ '' records...'') st;
             st2 = st1\<lparr>requests := requests st1 @ [batch]\<rparr>
         in case patch (length (requests st)) batch of
              Some errorBody \<Rightarrow> (Some (Error (''Failed to update batch: '' @ errorBody)), st2)
            | None \<Rightarrow>
                update_batches patch updatePayloads (i + 10)
                  (push ''Batch updated successfully.''
                     (st2\<lparr>committed := committed st2 @ [batch]\<rparr>)))
      else (None, st))"
  by pat_completeness auto
termination
  by (relation "measure (\<lambda>(patch, updatePayloads, i, st). length updatePayloads - i)") auto

record request =
  req_method :: string
  req_password :: "string option"  \<comment> \<open>\<^verbatim>\<open>request.body.password\<close>\<close>

record world =
  schema_response :: "string + table list"
  spt_response :: "string + spt_record list"
    \<comment> \<open>the records of the view, or the body of a response that is not ok\<close>
  mtb_response :: "string + mtb_fields list"
  patch_response :: patch_service

datatype body =
  ErrorOnly string  \<comment> \<open>\<^verbatim>\<open>{ error }\<close>\<close>
| Failure string "string list"  \<comment> \<open>\<^verbatim>\<open>{ error, details }\<close>\<close>
| Success string "string list"  \<comment> \<open>\<^verbatim>\<open>{ message, details }\<close>\<close>

record response =
  status :: nat
  json :: body

definition caught :: "error \<Rightarrow> run_state \<Rightarrow> response \<times> run_state" where
  \<comment> \<open>the \<^verbatim>\<open>catch (error)\<close> block\<close>
  "caught e st =
     (let st' = push (''ERROR: '' @ error_message e) st
      in (\<lparr>status = 500, json = Failure (error_message e) (logDetails st')\<rparr>, st'))"

definition sptTableName :: string where
  "sptTableName = ''SPT - Sellable Product Table''"

definition run_sync :: "world \<Rightarrow> response \<times> run_state" where
  \<comment> \<open>the \<^verbatim>\<open>try\<close> block of the handler and its \<^verbatim>\<open>catch\<close>\<close>
  "run_sync w =
     (let st0 = push ''Fetching field options from Airtable schema...''
                  \<lparr>logDetails = [], requests = [], committed = []\<rparr>
      in case getSelectOptions (schema_response w) sptTableName of
           Inl e \<Rightarrow> caught e st0
         | Inr selectOptions \<Rightarrow>
             (let st1 = push ''Successfully fetched select options.'' st0;
                  st2 = push ''Fetching records from view: Batch Update'' st1
              in case spt_response w of
                   Inl body \<Rightarrow> caught (Error (''Failed to fetch SPT records: '' @ body)) st2
                 | Inr recordsToUpdate \<Rightarrow>
                     if length recordsToUpdate = 0 then
                       (let st3 = push ''No records found in the 'Batch Update' view.'' st2
                        in (\<lparr>status = 200,
                             json = Success ''No records to update.'' (logDetails st3)\<rparr>, st3))
                     else
                       (let st3 = push (''Found '' @ show_nat (length recordsToUpdate)
                                          @ '' records to update.'') st2
                        in case mtb_response w of
                             Inl body \<Rightarrow>
                               caught (Error (''Failed to fetch MTB records: '' @ body)) st3
                           | Inr mtbRecords \<Rightarrow>
                               (case reconcile_all selectOptions (mtbLookup_of mtbRecords)
                                       recordsToUpdate [] of
                                  Inl e \<Rightarrow> caught e st3
                                | Inr updatePayloads \<Rightarrow>
                                    (case update_batches (patch_response w) updatePayloads 0 st3 of
                                       (Some e, st4) \<Rightarrow> caught e st4
                                     | (None, st4) \<Rightarrow>
                                         (\<lparr>status = 200,
                                           json = Success
                                             (''Successfully processed and updated ''
                                                @ show_nat (length updatePayloads) @ '' records.'')
                                             (logDetails st4)\<rparr>, st4))))))"

definition handler :: "request \<Rightarrow> string option \<Rightarrow> world \<Rightarrow> response \<times> run_state" where
  \<comment> \<open>\<^verbatim>\<open>export default async function handler(request, response)\<close> of
      \<^verbatim>\<open>api/update-batch-products.js\<close>; the second argument is
      \<^verbatim>\<open>process.env.UPDATE_PASSWORD\<close>\<close>
  "handler request UPDATE_PASSWORD w =
     (if req_method request \<noteq> ''POST'' then
        (\<lparr>status = 405, json = ErrorOnly ''Method Not Allowed''\<rparr>,
         \<lparr>logDetails = [], requests = [], committed = []\<rparr>)
      else if req_password request \<noteq> UPDATE_PASSWORD then
        (\<lparr>status = 401, json = ErrorOnly ''Invalid password.''\<rparr>,
         \<lparr>logDetails = [], requests = [], committed = []\<rparr>)
      else run_sync w)"

section \<open>States of a run\<close>

text \<open>
  Two states of the log that the proofs name: the state after a chunk was accepted, and
  the state in which the write loop is entered.
\<close>

definition after_ok :: "payload list \<Rightarrow> nat \<Rightarrow> run_state \<Rightarrow> run_state" where
  "after_ok ps i st =
     push ''Batch updated successfully.''
       ((push (''Updating batch of '' @ show_nat (length (take 10 (drop i ps))) @ '' records...'') st)
          \<lparr>requests := requests st @ [take 10 (drop i ps)],
           committed := committed st @ [take 10 (drop i ps)]\<rparr>)"

definition write_entry :: "nat \<Rightarrow> run_state" where
  "write_entry n =
     \<lparr>logDetails = [''Fetching field options from Airtable schema...'',
                    ''Successfully fetched select options.'',
                    ''Fetching records from view: Batch Update'',
                    ''Found '' @ show_nat n @ '' records to update.''],
      requests = [], committed = []\<rparr>"

section \<open>Example data\<close>

text \<open>A small schema, a master record and a view, used to run the definitions.\<close>

definition demo_category_field :: field where
  "demo_category_field =
     \<lparr>f_name = ''category'', f_type = ''singleSelect'',
      f_choices = [\<lparr>c_name = ''Nut Butters'', c_id = ''selNB''\<rparr>,
                   \<lparr>c_name = ''Mixes'', c_id = ''selMix''\<rparr>,
                   \<lparr>c_name = ''whole nuts'', c_id = ''selWN''\<rparr>]\<rparr>"

definition demo_schema :: "field list" where
  "demo_schema =
     [\<lparr>f_name = ''packageSize'', f_type = ''singleSelect'',
       f_choices = [\<lparr>c_name = ''450g bag'', c_id = ''selP450''\<rparr>]\<rparr>,
      \<lparr>f_name = ''marketingName'', f_type = ''singleLineText'', f_choices = []\<rparr>,
      demo_category_field]"

definition demo_mtb :: mtb_fields where
  "demo_mtb =
     \<lparr>m_baseProductId = Some ''BP1'',
      m_verkoop_450g = Some (25 / 2),
      m_verkoop_1kg = Some 11,
      m_nut_butter_175g = None,
      m_nut_butter_365g = None,
      m_baseProductGroup = Some (Some ''Nut Mixes''),
      m_countryOfOrigin = Some ''Spain'',
      m_Ingredients = Some ''SOYA, almonds, MILK powder'',
      m_supplierProductName = Some ''Mix'',
      m_supplierProductUrl = None,
      m_isOrganic = Some True,
      m_isRaw = None,
      m_isGeroosterd = None,
      m_isGebrand = None,
      m_isSalted = None,
      m_isNutbutterAvailable = None\<rparr>"

definition demo_linked :: "string option \<Rightarrow> spt_record" where
  "demo_linked internalName =
     \<lparr>r_id = ''recA'',
      r_fields = \<lparr>s_linkedBaseProductId = Some ''BP1'', s_internalName = internalName,
                  s_sptId = Some ''SPT1''\<rparr>\<rparr>"

definition demo_unlinked :: spt_record where
  "demo_unlinked =
     \<lparr>r_id = ''recB'',
      r_fields = \<lparr>s_linkedBaseProductId = None, s_internalName = Some ''Other-z450'',
                  s_sptId = Some ''SPT2''\<rparr>\<rparr>"

definition demo_unknown :: spt_record where
  "demo_unknown =
     \<lparr>r_id = ''recC'',
      r_fields = \<lparr>s_linkedBaseProductId = Some ''BP9'', s_internalName = Some ''Third-nb175'',
                  s_sptId = Some ''SPT3''\<rparr>\<rparr>"

definition demo_options :: select_options where
  "demo_options = optionsMap_strict demo_schema Map.empty"

definition demo_payload :: "string \<Rightarrow> payload" where
  "demo_payload internalName =
     \<lparr>p_id = ''recA'',
      p_fields = derive_strict demo_options demo_mtb internalName (Some ''SPT1'')\<rparr>"

definition demo_request :: request where
  "demo_request = \<lparr>req_method = ''POST'', req_password = Some ''secret''\<rparr>"

definition demo_world :: "spt_record list \<Rightarrow> patch_service \<Rightarrow> world" where
  "demo_world records patch =
     \<lparr>schema_response = Inr [\<lparr>t_name = ''SPT - Sellable Product Table'', t_fields = demo_schema\<rparr>],
      spt_response = Inr records,
      mtb_response = Inr [demo_mtb],
      patch_response = patch\<rparr>"

declare update_batches.simps [simp del]

declare show_nat.simps [simp del]

section \<open>The variant pattern\<close>

lemma hyphen_not_space: "\<not> is_space (CHR ''-'')"
  by (simp add: is_space_def code_unit_def)

lemma hyphen_not_digit: "\<not> is_digit (CHR ''-'')"
  by (simp add: is_digit_def code_unit_def)

lemma digits1_no_hyphen: "digits1 s \<Longrightarrow> CHR ''-'' \<notin> set s"
  using hyphen_not_digit by (auto simp: digits1_def list_all_iff)

lemma variant_code_no_hyphen: "variant_code g \<Longrightarrow> CHR ''-'' \<notin> set g"
  by (cases g) (auto split: if_splits list.splits dest: digits1_no_hyphen)

lemma variant_code_head_not_space: "variant_code (c # cs) \<Longrightarrow> \<not> is_space c"
  by (auto simp: is_space_def code_unit_def split: if_splits)

lemma dropWhile_spaces_code:
  "list_all is_space w \<Longrightarrow> variant_code g \<Longrightarrow> dropWhile is_space (w @ g) = g"
proof (cases g)
  case Nil
  assume "variant_code g"
  with Nil show ?thesis by simp
next
  case (Cons c cs)
  assume w: "list_all is_space w" and v: "variant_code g"
  from v Cons have "\<not> is_space c" using variant_code_head_not_space by blast
  moreover have "dropWhile is_space (w @ g) = dropWhile is_space g"
    using w by (intro dropWhile_append2) (simp add: list_all_iff)
  ultimately show ?thesis using Cons by simp
qed

lemma after_hyphen_suffix:
  "list_all is_space w \<Longrightarrow> variant_code g \<Longrightarrow> after_hyphen (w @ g) = Some g"
  by (simp add: after_hyphen_def dropWhile_spaces_code)

lemma after_hyphen_with_hyphen: "CHR ''-'' \<in> set s \<Longrightarrow> after_hyphen s = None"
proof -
  assume h: "CHR ''-'' \<in> set s"
  have "CHR ''-'' \<in> set (dropWhile is_space s)"
    using h hyphen_not_space by (induction s) auto
  then show ?thesis
    using variant_code_no_hyphen by (auto simp: after_hyphen_def Let_def)
qed

lemma name_match_suffix:
  "list_all is_space w \<Longrightarrow> variant_code g \<Longrightarrow> name_match (p @ CHR ''-'' # w @ g) = Some g"
  by (induction p) (auto simp: after_hyphen_suffix after_hyphen_with_hyphen)

lemma after_hyphen_Some:
  "after_hyphen s = Some g \<Longrightarrow> \<exists>w. s = w @ g \<and> list_all is_space w \<and> variant_code g"
proof -
  assume "after_hyphen s = Some g"
  then have g: "g = dropWhile is_space s" and v: "variant_code g"
    by (auto simp: after_hyphen_def Let_def split: if_splits)
  have "s = takeWhile is_space s @ g" by (simp add: g)
  moreover have "list_all is_space (takeWhile is_space s)"
    by (simp add: list_all_iff) (meson set_takeWhileD)
  ultimately show ?thesis using v by blast
qed

lemma name_match_Some:
  "name_match s = Some g \<Longrightarrow>
     \<exists>p w. s = p @ CHR ''-'' # w @ g \<and> list_all is_space w \<and> variant_code g"
proof (induction s)
  case Nil
  then show ?case by simp
next
  case (Cons c cs)
  show ?case
  proof (cases "c = CHR ''-'' \<and> after_hyphen cs \<noteq> None")
    case True
    with Cons.prems have "after_hyphen cs = Some g" by (auto split: option.splits)
    then obtain w where "cs = w @ g" "list_all is_space w" "variant_code g"
      using after_hyphen_Some by blast
    with True have "c # cs = [] @ CHR ''-'' # w @ g" by simp
    then show ?thesis using \<open>list_all is_space w\<close> \<open>variant_code g\<close> by blast
  next
    case False
    with Cons.prems have "name_match cs = Some g" by (auto split: if_splits option.splits)
    then obtain p w where "cs = p @ CHR ''-'' # w @ g" "list_all is_space w" "variant_code g"
      using Cons.IH by blast
    then have "c # cs = (c # p) @ CHR ''-'' # w @ g" by simp
    then show ?thesis using \<open>list_all is_space w\<close> \<open>variant_code g\<close> by blast
  qed
qed

text \<open>
  The pattern as a statement about the name: the variant suffix is \<open>g\<close> exactly when the
  name is some prefix, a hyphen, white space, and a code \<open>g\<close> of the shape
  \<^verbatim>\<open>z<digits>\<close> or \<^verbatim>\<open>nb<digits>\<close> that ends the name.
\<close>

lemma variantSuffix_of_iff:
  "variantSuffix_of name = Some g \<longleftrightarrow>
     (\<exists>p w. name = p @ CHR ''-'' # w @ g \<and> list_all is_space w \<and> variant_code g)"
  unfolding variantSuffix_of_def using name_match_Some name_match_suffix by blast

lemma known_codes:
  "variant_code ''z450''" "variant_code ''z1000''"
  "variant_code ''nb175''" "variant_code ''nb365''"
  by (simp_all add: digits1_def is_digit_def code_unit_def)

text \<open>
  The table of the batch handlers, for every name that ends in a hyphen, optional white
  space and one of the four codes.
\<close>

lemma variant_rule_table:
  assumes "list_all is_space w"
  shows "variant_rule m (variantSuffix_of (p @ ''-'' @ w @ ''z450'')) =
           \<lparr>packageSize = Some ''450g Bag'', sellingPrice = of_field (m_verkoop_450g m),
            weightGrams = Some 600\<rparr>"
    and "variant_rule m (variantSuffix_of (p @ ''-'' @ w @ ''z1000'')) =
           \<lparr>packageSize = Some ''1000g Bag'', sellingPrice = of_field (m_verkoop_1kg m),
            weightGrams = Some 1250\<rparr>"
    and "variant_rule m (variantSuffix_of (p @ ''-'' @ w @ ''nb175'')) =
           \<lparr>packageSize = Some ''175g Jar'', sellingPrice = of_field (m_nut_butter_175g m),
            weightGrams = Some 400\<rparr>"
    and "variant_rule m (variantSuffix_of (p @ ''-'' @ w @ ''nb365'')) =
           \<lparr>packageSize = Some ''365g Jar'', sellingPrice = of_field (m_nut_butter_365g m),
            weightGrams = Some 750\<rparr>"
proof -
  have "variantSuffix_of (p @ ''-'' @ w @ ''z450'') = Some ''z450''"
    using name_match_suffix [OF assms known_codes(1), of p] by (simp add: variantSuffix_of_def)
  then show "variant_rule m (variantSuffix_of (p @ ''-'' @ w @ ''z450'')) =
           \<lparr>packageSize = Some ''450g Bag'', sellingPrice = of_field (m_verkoop_450g m),
            weightGrams = Some 600\<rparr>"
    by (simp add: variant_rule_def)
  have "variantSuffix_of (p @ ''-'' @ w @ ''z1000'') = Some ''z1000''"
    using name_match_suffix [OF assms known_codes(2), of p] by (simp add: variantSuffix_of_def)
  then show "variant_rule m (variantSuffix_of (p @ ''-'' @ w @ ''z1000'')) =
           \<lparr>packageSize = Some ''1000g Bag'', sellingPrice = of_field (m_verkoop_1kg m),
            weightGrams = Some 1250\<rparr>"
    by (simp add: variant_rule_def)
  have "variantSuffix_of (p @ ''-'' @ w @ ''nb175'') = Some ''nb175''"
    using name_match_suffix [OF assms known_codes(3), of p] by (simp add: variantSuffix_of_def)
  then show "variant_rule m (variantSuffix_of (p @ ''-'' @ w @ ''nb175'')) =
           \<lparr>packageSize = Some ''175g Jar'', sellingPrice = of_field (m_nut_butter_175g m),
            weightGrams = Some 400\<rparr>"
    by (simp add: variant_rule_def)
  have "variantSuffix_of (p @ ''-'' @ w @ ''nb365'') = Some ''nb365''"
    using name_match_suffix [OF assms known_codes(4), of p] by (simp add: variantSuffix_of_def)
  then show "variant_rule m (variantSuffix_of (p @ ''-'' @ w @ ''nb365'')) =
           \<lparr>packageSize = Some ''365g Jar'', sellingPrice = of_field (m_nut_butter_365g m),
            weightGrams = Some 750\<rparr>"
    by (simp add: variant_rule_def)
qed

lemma suffix_Product_z1000: "variantSuffix_of ''Product-z1000'' = Some ''z1000''"
  using name_match_suffix [OF _ known_codes(2), of "[]" "''Product''"]
  by (simp add: variantSuffix_of_def)

text \<open>
  Claim C1. For every name that ends in one of the four suffixes the rule engine is to
  return the triple of the table, in every variant of the derivation code; for
  \<^verbatim>\<open>z1000\<close> that is the label \<^verbatim>\<open>1000g Bag\<close>, the field \<^verbatim>\<open>Verkoop 1kg\<close> and 1250 grams.
  The batch handlers do (\<open>variant_rule_table\<close>). The single-record endpoint does not:
  on the name \<^verbatim>\<open>Product-z1000\<close> it reads the right price field and weight, and labels
  the package \<^verbatim>\<open>1kg Bag\<close>.
\<close>

theorem single_product_z1000_label:
  "variant_rule_single m (variantSuffix_of ''Product-z1000'') =
     \<lparr>packageSize = Some ''1kg Bag'', sellingPrice = of_field (m_verkoop_1kg m),
      weightGrams = Some 1250\<rparr>
   \<and> packageSize (variant_rule_single m (variantSuffix_of ''Product-z1000'')) \<noteq> Some ''1000g Bag''
   \<and> packageSize (variant_rule m (variantSuffix_of ''Product-z1000'')) = Some ''1000g Bag''"
  by (simp add: suffix_Product_z1000 variant_rule_single_def variant_rule_def)

section \<open>Option resolution\<close>

lemma normalize_Whole_Nuts: "normalize_str (Some ''Whole Nuts'') = ''wholenuts''"
  by code_simp

lemma normalize_whole_nuts: "normalize_str (Some ''whole nuts'') = ''wholenuts''"
  by code_simp

lemma normalize_spaced_Whole_Nuts: "normalize_str (Some '' Whole   Nuts '') = ''wholenuts''"
  by code_simp

lemma demo_category_whole_nuts:
  "resolve_strict (optionsMap_strict demo_schema Map.empty) ''category'' (Some ''whole nuts'')
     = Some (OptionRef ''selWN'')"
  by code_simp

lemma js_Map_lookup:
  "js_Map es m k = (case map_of (rev es) k of Some v \<Rightarrow> Some v | None \<Rightarrow> m k)"
proof (induction es arbitrary: m)
  case Nil
  then show ?case by simp
next
  case (Cons e es)
  obtain k' v' where e: "e = (k', v')" by (cases e)
  show ?case
    unfolding e by (simp add: Cons.IH map_add_def split: option.splits)
qed

lemma js_Map_key_found:
  assumes "(k, v) \<in> set es"
  shows "\<exists>v'. (k, v') \<in> set es \<and> js_Map es Map.empty k = Some v'"
proof -
  have "k \<in> fst ` set (rev es)" using assms by force
  then obtain v' where v': "map_of (rev es) k = Some v'"
    by (metis domD dom_map_of_conv_image_fst)
  then have "(k, v') \<in> set es" using map_of_SomeD by fastforce
  then show ?thesis using v' by (auto simp: js_Map_lookup)
qed

lemma optionsMap_strict_other:
  "n \<notin> f_name ` set fs \<Longrightarrow> optionsMap_strict fs om n = om n"
  by (induction fs arbitrary: om) auto

lemma optionsMap_strict_field:
  assumes "f \<in> set fs" "distinct (map f_name fs)"
    "f_type f = ''singleSelect'' \<or> f_type f = ''multipleSelects''"
  shows "optionsMap_strict fs om (f_name f)
           = Some (js_Map (map (\<lambda>c. (normalize_str (Some (c_name c)), c_id c)) (f_choices f))
                     Map.empty)"
  using assms(1,2)
proof (induction fs arbitrary: om)
  case Nil
  then show ?case by simp
next
  case (Cons g gs)
  show ?case
  proof (cases "f = g")
    case True
    have "f_name g \<notin> f_name ` set gs" using Cons.prems(2) by simp
    then show ?thesis
      using True assms(3) by (simp add: optionsMap_strict_other)
  next
    case False
    then have "f \<in> set gs" and "distinct (map f_name gs)"
      using Cons.prems by simp_all
    then show ?thesis using Cons.IH by simp
  qed
qed

text \<open>
  Claim C2, as amended. In \<^verbatim>\<open>api/update-batch-products.js\<close>, for every option map,
  every select field and every two texts that are equal once all white space is
  stripped and the letters are lower-cased, option resolution gives the same result
  for both: the same option identifier, or no match for either. For the option map
  built from a schema whose field names are distinct: when a choice of the select
  field has the same normalised name as the texts, both texts resolve to the identifier
  of one such choice. (The earlier revision of the batch handler keys and looks up by
  the exact text, see the counterexample.)
\<close>

theorem resolve_strict_normalized:
  assumes "normalize_str (Some a) = normalize_str (Some b)"
  shows "resolve_strict selectOptions fieldName (Some a)
           = resolve_strict selectOptions fieldName (Some b)
       \<and> (f \<in> set flds \<and> distinct (map f_name flds)
            \<and> (f_type f = ''singleSelect'' \<or> f_type f = ''multipleSelects'')
            \<and> c \<in> set (f_choices f)
            \<and> normalize_str (Some (c_name c)) = normalize_str (Some a)
          \<longrightarrow> (\<exists>c' \<in> set (f_choices f).
                 normalize_str (Some (c_name c')) = normalize_str (Some a)
                 \<and> resolve_strict (optionsMap_strict flds Map.empty) (f_name f) (Some a)
                     = Some (OptionRef (c_id c'))
                 \<and> resolve_strict (optionsMap_strict flds Map.empty) (f_name f) (Some b)
                     = Some (OptionRef (c_id c'))))"
proof (intro conjI impI)
  show "resolve_strict selectOptions fieldName (Some a)
           = resolve_strict selectOptions fieldName (Some b)"
    by (simp add: resolve_strict_def assms cong: option.case_cong)
next
  assume h: "f \<in> set flds \<and> distinct (map f_name flds)
            \<and> (f_type f = ''singleSelect'' \<or> f_type f = ''multipleSelects'')
            \<and> c \<in> set (f_choices f)
            \<and> normalize_str (Some (c_name c)) = normalize_str (Some a)"
  let ?es = "map (\<lambda>c. (normalize_str (Some (c_name c)), c_id c)) (f_choices f)"
  have om: "optionsMap_strict flds Map.empty (f_name f) = Some (js_Map ?es Map.empty)"
    using h by (intro optionsMap_strict_field) blast+
  from h have cin: "c \<in> set (f_choices f)"
    and ceq: "normalize_str (Some (c_name c)) = normalize_str (Some a)" by blast+
  have "(normalize_str (Some (c_name c)), c_id c) \<in> set ?es"
    using cin by simp
  then have "(normalize_str (Some a), c_id c) \<in> set ?es"
    unfolding ceq .
  then have "\<exists>v. (normalize_str (Some a), v) \<in> set ?es
               \<and> js_Map ?es Map.empty (normalize_str (Some a)) = Some v"
    by (rule js_Map_key_found)
  then obtain v where v: "(normalize_str (Some a), v) \<in> set ?es"
    and l: "js_Map ?es Map.empty (normalize_str (Some a)) = Some v"
    by (elim exE conjE)
  from v have "\<exists>c' \<in> set (f_choices f).
      normalize_str (Some (c_name c')) = normalize_str (Some a) \<and> c_id c' = v"
    by (simp add: image_iff) metis
  then obtain c' where c': "c' \<in> set (f_choices f)"
    "normalize_str (Some (c_name c')) = normalize_str (Some a)" "c_id c' = v"
    by blast
  have ra: "resolve_strict (optionsMap_strict flds Map.empty) (f_name f) (Some a)
              = Some (OptionRef (c_id c'))"
    by (simp add: resolve_strict_def om l c'(3))
  have rb: "resolve_strict (optionsMap_strict flds Map.empty) (f_name f) (Some b)
              = Some (OptionRef (c_id c'))"
    using l unfolding assms by (simp add: resolve_strict_def om c'(3))
  show "\<exists>c' \<in> set (f_choices f).
                 normalize_str (Some (c_name c')) = normalize_str (Some a)
                 \<and> resolve_strict (optionsMap_strict flds Map.empty) (f_name f) (Some a)
                     = Some (OptionRef (c_id c'))
                 \<and> resolve_strict (optionsMap_strict flds Map.empty) (f_name f) (Some b)
                     = Some (OptionRef (c_id c'))"
    using c' ra rb by blast
qed

theorem resolve_strict_normalized_witness:
  "resolve_strict (optionsMap_strict demo_schema Map.empty) ''category'' (Some ''Whole Nuts'')
     = Some (OptionRef ''selWN'')
   \<and> resolve_strict (optionsMap_strict demo_schema Map.empty) ''category''
       (Some '' Whole   Nuts '')
     = Some (OptionRef ''selWN'')
   \<and> (\<exists>c' \<in> set (f_choices demo_category_field).
         resolve_strict (optionsMap_strict demo_schema Map.empty) (f_name demo_category_field)
           (Some '' Whole   Nuts '') = Some (OptionRef (c_id c')))"
proof -
  let ?c = "\<lparr>c_name = ''whole nuts'', c_id = ''selWN''\<rparr>"
  have a: "normalize_str (Some ''Whole Nuts'') = normalize_str (Some ''whole nuts'')"
    by (simp only: normalize_Whole_Nuts normalize_whole_nuts)
  have b: "normalize_str (Some '' Whole   Nuts '') = normalize_str (Some ''whole nuts'')"
    by (simp only: normalize_whole_nuts normalize_spaced_Whole_Nuts)
  have h: "demo_category_field \<in> set demo_schema \<and> distinct (map f_name demo_schema)
           \<and> (f_type demo_category_field = ''singleSelect''
                \<or> f_type demo_category_field = ''multipleSelects'')
           \<and> ?c \<in> set (f_choices demo_category_field)
           \<and> normalize_str (Some (c_name ?c)) = normalize_str (Some '' Whole   Nuts '')"
    using b by (simp add: demo_schema_def demo_category_field_def)
  note T1 = resolve_strict_normalized [OF a, where selectOptions = "optionsMap_strict demo_schema Map.empty"
              and fieldName = "''category''"]
  note T2 = resolve_strict_normalized [OF b, where selectOptions = "optionsMap_strict demo_schema Map.empty"
              and fieldName = "''category''" and f = demo_category_field and flds = demo_schema
              and c = ?c]
  have r1: "resolve_strict (optionsMap_strict demo_schema Map.empty) ''category'' (Some ''Whole Nuts'')
              = Some (OptionRef ''selWN'')"
    using T1 demo_category_whole_nuts by simp
  have r2: "resolve_strict (optionsMap_strict demo_schema Map.empty) ''category''
              (Some '' Whole   Nuts '') = Some (OptionRef ''selWN'')"
    using T2 demo_category_whole_nuts by simp
  have r3: "\<exists>c' \<in> set (f_choices demo_category_field).
         resolve_strict (optionsMap_strict demo_schema Map.empty) (f_name demo_category_field)
           (Some '' Whole   Nuts '') = Some (OptionRef (c_id c'))"
    using T2 h by blast
  from r1 r2 r3 show ?thesis by blast
qed

text \<open>
  The earlier revision of the batch handler: the schema has the category choice
  \<^verbatim>\<open>whole nuts\<close>; the text \<^verbatim>\<open>whole nuts\<close> resolves to its identifier, the text
  \<^verbatim>\<open>Whole Nuts\<close>, equal to it after normalisation, resolves to nothing.
\<close>

theorem resolve_lenient_exact_counterexample:
  "normalize_str (Some ''Whole Nuts'') = normalize_str (Some ''whole nuts'')
   \<and> resolve_lenient (optionsMap_lenient demo_schema Map.empty) ''category'' (Some ''whole nuts'')
       = Some (OptionRef ''selWN'')
   \<and> resolve_lenient (optionsMap_lenient demo_schema Map.empty) ''category'' (Some ''Whole Nuts'')
       = None"
  by code_simp

section \<open>Package size in the payload\<close>

lemma variant_rule_packageSize_nonempty: "packageSize (variant_rule m vs) \<noteq> Some []"
  by (simp add: variant_rule_def)

lemma demo_z450_strict_match:
  "Option.bind (optionsMap_strict demo_schema Map.empty ''packageSize'')
     (\<lambda>om. om (normalize_str
        (packageSize (variant_rule demo_mtb (variantSuffix_of ''Product-z450'')))))
   = Some ''selP450''"
  by code_simp

lemma demo_z1000_strict_no_match:
  "Option.bind (optionsMap_strict demo_schema Map.empty ''packageSize'')
     (\<lambda>om. om (normalize_str
        (packageSize (variant_rule demo_mtb (variantSuffix_of ''Product-z1000'')))))
   = None"
  by code_simp

lemma demo_z450_lenient_no_match:
  "packageSize (variant_rule demo_mtb (variantSuffix_of ''Product-z450'')) = Some ''450g Bag''
   \<and> Option.bind (optionsMap_lenient demo_schema Map.empty ''packageSize'')
       (\<lambda>om. om ''450g Bag'') = None"
  by code_simp

text \<open>
  Claim C3. Let \<open>pkg\<close> be the package-size text derived for a record. In
  \<^verbatim>\<open>api/update-batch-products.js\<close> (strict): when the option map of the field
  \<^verbatim>\<open>packageSize\<close> has the normalised \<open>pkg\<close>, the payload carries the reference
  \<^verbatim>\<open>{ id }\<close>; when it has not, or the field has no option map, the payload has no
  \<^verbatim>\<open>packageSize\<close> at all; a raw text is never written. In the earlier revision
  (lenient): when the option map has the text \<open>pkg\<close>, the payload carries
  \<^verbatim>\<open>{ id }\<close>; when it has not, the payload carries the raw text, and \<^verbatim>\<open>null\<close> when
  no text was derived.
\<close>

theorem packageSize_resolution:
  "(Option.bind (selectOptions ''packageSize'')
        (\<lambda>om. om (normalize_str (packageSize (variant_rule m (variantSuffix_of name))))) = Some i
      \<longrightarrow> u_packageSize (derive_strict selectOptions m name sptId) = Some (OptionRef i))
   \<and> (Option.bind (selectOptions ''packageSize'')
        (\<lambda>om. om (normalize_str (packageSize (variant_rule m (variantSuffix_of name))))) = None
      \<longrightarrow> u_packageSize (derive_strict selectOptions m name sptId) = None)
   \<and> u_packageSize (derive_strict selectOptions m name sptId) \<noteq> Some (Text x)
   \<and> (packageSize (variant_rule m (variantSuffix_of name)) = Some t
        \<and> Option.bind (selectOptions ''packageSize'') (\<lambda>om. om t) = Some i
      \<longrightarrow> u_packageSize (derive_lenient selectOptions m name sptId) = Some (OptionRef i))
   \<and> (packageSize (variant_rule m (variantSuffix_of name)) = Some t
        \<and> Option.bind (selectOptions ''packageSize'') (\<lambda>om. om t) = None
      \<longrightarrow> u_packageSize (derive_lenient selectOptions m name sptId) = Some (Text (Val t)))
   \<and> (packageSize (variant_rule m (variantSuffix_of name)) = None
      \<longrightarrow> u_packageSize (derive_lenient selectOptions m name sptId) = Some (Text Null))"
proof -
  let ?pkg = "packageSize (variant_rule m (variantSuffix_of name))"
  have ne: "?pkg \<noteq> Some []"
    by (rule variant_rule_packageSize_nonempty)
  have s1: "Option.bind (selectOptions ''packageSize'') (\<lambda>om. om (normalize_str ?pkg)) = Some i
      \<longrightarrow> u_packageSize (derive_strict selectOptions m name sptId) = Some (OptionRef i)"
    by (auto simp: derive_strict_def Let_def resolve_strict_def split: option.splits)
  have s2: "Option.bind (selectOptions ''packageSize'') (\<lambda>om. om (normalize_str ?pkg)) = None
      \<longrightarrow> u_packageSize (derive_strict selectOptions m name sptId) = None"
    by (auto simp: derive_strict_def Let_def resolve_strict_def split: option.splits)
  have s3: "u_packageSize (derive_strict selectOptions m name sptId) \<noteq> Some (Text x)"
    by (simp add: derive_strict_def Let_def resolve_strict_def split: option.splits)
  have l1: "?pkg = Some t \<and> Option.bind (selectOptions ''packageSize'') (\<lambda>om. om t) = Some i
      \<longrightarrow> u_packageSize (derive_lenient selectOptions m name sptId) = Some (OptionRef i)"
    using ne by (auto simp: derive_lenient_def Let_def resolve_lenient_def split: option.splits)
  have l2: "?pkg = Some t \<and> Option.bind (selectOptions ''packageSize'') (\<lambda>om. om t) = None
      \<longrightarrow> u_packageSize (derive_lenient selectOptions m name sptId) = Some (Text (Val t))"
    by (auto simp: derive_lenient_def Let_def resolve_lenient_def split: option.splits)
  have l3: "?pkg = None
      \<longrightarrow> u_packageSize (derive_lenient selectOptions m name sptId) = Some (Text Null)"
    by (simp add: derive_lenient_def Let_def resolve_lenient_def)
  from s1 s2 s3 l1 l2 l3 show ?thesis by blast
qed

theorem packageSize_resolution_witness:
  "u_packageSize (derive_strict (optionsMap_strict demo_schema Map.empty) demo_mtb
       ''Product-z450'' None) = Some (OptionRef ''selP450'')
   \<and> u_packageSize (derive_strict (optionsMap_strict demo_schema Map.empty) demo_mtb
       ''Product-z1000'' None) = None
   \<and> u_packageSize (derive_lenient (optionsMap_lenient demo_schema Map.empty) demo_mtb
       ''Product-z450'' None) = Some (Text (Val ''450g Bag''))"
  using packageSize_resolution [of "optionsMap_strict demo_schema Map.empty" demo_mtb
          "''Product-z450''" "''selP450''" None]
        packageSize_resolution [of "optionsMap_strict demo_schema Map.empty" demo_mtb
          "''Product-z1000''" _ None]
        packageSize_resolution [of "optionsMap_lenient demo_schema Map.empty" demo_mtb
          "''Product-z450''" _ None _ "''450g Bag''"]
        demo_z450_strict_match demo_z1000_strict_no_match demo_z450_lenient_no_match
  by blast

section \<open>Allergens\<close>

text \<open>
  Claim C5. On the ingredients text \<^verbatim>\<open>SOYA, almonds, MILK powder\<close> the pattern matches
  \<^verbatim>\<open>SOYA\<close> and \<^verbatim>\<open>MILK\<close> followed by a space, and nothing in \<^verbatim>\<open>almonds\<close> or
  \<^verbatim>\<open>powder\<close>; trimmed, lower-cased and capitalised, the allergens are \<^verbatim>\<open>Soya\<close> and
  \<^verbatim>\<open>Milk\<close>, in the batch handlers and in the single-record endpoint.
\<close>

theorem allergens_example:
  "allergenMatches (Some ''SOYA, almonds, MILK powder'') = [''SOYA'', ''MILK '']
   \<and> allergens_of (Some ''SOYA, almonds, MILK powder'') = [''Soya'', ''Milk'']
   \<and> allergens_single (Some ''SOYA, almonds, MILK powder'') = [''Soya'', ''Milk'']"
  by code_simp

section \<open>The reconcile loop\<close>

lemma reconcile_all_Inr:
  "reconcile_all so lk rs acc = Inr ps \<Longrightarrow>
     ps = acc @ concat (map (\<lambda>r. case reconcile so lk r of Inr (Some p) \<Rightarrow> [p] | _ \<Rightarrow> []) rs)"
proof (induction rs arbitrary: acc)
  case Nil
  then show ?case by simp
next
  case (Cons r rs)
  show ?case
  proof (cases "reconcile so lk r")
    case (Inl e)
    with Cons.prems show ?thesis by simp
  next
    case (Inr res)
    show ?thesis
    proof (cases res)
      case None
      with Inr Cons.prems have "reconcile_all so lk rs acc = Inr ps" by simp
      from Cons.IH [OF this] show ?thesis using Inr None by simp
    next
      case (Some p)
      with Inr Cons.prems have "reconcile_all so lk rs (acc @ [p]) = Inr ps" by simp
      from Cons.IH [OF this] show ?thesis using Inr Some by simp
    qed
  qed
qed

lemma reconcile_all_member:
  assumes "reconcile_all so lk rs acc = Inr ps" "r \<in> set rs" "reconcile so lk r = Inr (Some p)"
  shows "p \<in> set ps"
proof -
  have "p \<in> set (concat (map (\<lambda>r. case reconcile so lk r of Inr (Some p) \<Rightarrow> [p] | _ \<Rightarrow> []) rs))"
    using assms(2,3) by force
  then show ?thesis using reconcile_all_Inr [OF assms(1)] by simp
qed

lemma reconcile_resolvable:
  assumes "s_linkedBaseProductId (r_fields r) = Some link" "link \<noteq> []"
    "lk (Some link) = Some m" "s_internalName (r_fields r) = Some name"
  shows "reconcile so lk r =
           Inr (Some \<lparr>p_id = r_id r,
                      p_fields = derive_strict so m name (s_sptId (r_fields r))\<rparr>)"
  using assms by (simp add: reconcile_def reconcile_with_def)

lemma reconcile_all_append:
  "reconcile_all so lk (xs @ ys) acc =
     (case reconcile_all so lk xs acc of
        Inl e \<Rightarrow> Inl e
      | Inr acc' \<Rightarrow> reconcile_all so lk ys acc')"
  by (induction xs arbitrary: acc) (auto split: sum.splits option.splits)

lemma reconcile_Inl: "reconcile so lk r = Inl e \<Longrightarrow> e = match_on_undefined"
  by (auto simp: reconcile_def reconcile_with_def split: option.splits if_splits)

lemma reconcile_all_error:
  "r \<in> set rs \<Longrightarrow> reconcile so lk r = Inl e \<Longrightarrow>
     reconcile_all so lk rs acc = Inl match_on_undefined"
proof (induction rs arbitrary: acc)
  case Nil
  then show ?case by simp
next
  case (Cons x xs)
  show ?case
  proof (cases "reconcile so lk x")
    case (Inl e')
    then show ?thesis using reconcile_Inl [OF Inl] by simp
  next
    case (Inr res)
    with Cons.prems have "r \<in> set xs" by auto
    from Cons.IH [OF this Cons.prems(2)] show ?thesis
      using Inr by (simp split: option.splits)
  qed
qed

lemma reconcile_all_replicate:
  "reconcile so lk r = Inr (Some p) \<Longrightarrow>
     reconcile_all so lk (replicate n r) acc = Inr (acc @ replicate n p)"
  by (induction n arbitrary: acc) (simp_all add: replicate_app_Cons_same)

lemma demo_lookup: "mtbLookup_of [demo_mtb] (Some ''BP1'') = Some demo_mtb"
  "mtbLookup_of [demo_mtb] (Some ''BP9'') = None"
  by (simp_all add: mtbLookup_of_def demo_mtb_def)

lemma demo_reconcile_linked:
  "reconcile demo_options (mtbLookup_of [demo_mtb]) (demo_linked (Some name))
     = Inr (Some (demo_payload name))"
  by (simp add: reconcile_def reconcile_with_def demo_linked_def demo_lookup demo_payload_def)

lemma suffix_Product_z500: "variantSuffix_of ''Product-z500'' = Some ''z500''"
  by code_simp

text \<open>
  Claim C4. When the internal name has no variant suffix, or a suffix other than the
  four known codes, the derivation gives \<^verbatim>\<open>null\<close> for package size, selling price and
  weight, and throws nothing. If moreover the link of the record resolves to a master
  record, the record yields a payload: it has the identifier of the record, a
  \<^verbatim>\<open>null\<close> selling price and weight, the remaining fields (marketing name, supplier
  name, allergens, ...) as for any other record, and it is in the update set of every
  run that gets through the loop.
\<close>

theorem unrecognized_suffix_null:
  assumes "variantSuffix_of name \<notin> {Some ''z450'', Some ''z1000'', Some ''nb175'', Some ''nb365''}"
  shows "variant_rule m (variantSuffix_of name) =
           \<lparr>packageSize = None, sellingPrice = Null, weightGrams = None\<rparr>
       \<and> (s_linkedBaseProductId (r_fields r) = Some link \<and> link \<noteq> []
            \<and> lk (Some link) = Some m \<and> s_internalName (r_fields r) = Some name
          \<longrightarrow> (\<exists>p. reconcile so lk r = Inr (Some p)
                 \<and> p_id p = r_id r
                 \<and> u_sellingPrice (p_fields p) = Null
                 \<and> u_weightGrams (p_fields p) = None
                 \<and> u_packageSize (p_fields p) = resolve_strict so ''packageSize'' None
                 \<and> u_productType (p_fields p) = resolve_strict so ''productType'' None
                 \<and> u_marketingName (p_fields p) = name
                 \<and> u_supplierProductName (p_fields p) = of_field (m_supplierProductName m)
                 \<and> u_allergens (p_fields p) = allergens_of (m_Ingredients m)
                 \<and> (\<forall>rs ps. r \<in> set rs \<and> reconcile_all so lk rs [] = Inr ps \<longrightarrow> p \<in> set ps)))"
proof -
  have v: "variant_rule m (variantSuffix_of name) =
           \<lparr>packageSize = None, sellingPrice = Null, weightGrams = None\<rparr>"
    using assms by (simp add: variant_rule_def)
  have pt: "productType_of None = None" by (simp add: productType_of_def)
  show ?thesis
  proof (intro conjI impI)
    show "variant_rule m (variantSuffix_of name) =
           \<lparr>packageSize = None, sellingPrice = Null, weightGrams = None\<rparr>" by (rule v)
  next
    assume h: "s_linkedBaseProductId (r_fields r) = Some link \<and> link \<noteq> []
            \<and> lk (Some link) = Some m \<and> s_internalName (r_fields r) = Some name"
    let ?p = "\<lparr>p_id = r_id r, p_fields = derive_strict so m name (s_sptId (r_fields r))\<rparr>"
    have r: "reconcile so lk r = Inr (Some ?p)"
      using h by (simp add: reconcile_resolvable)
    have m: "\<forall>rs ps. r \<in> set rs \<and> reconcile_all so lk rs [] = Inr ps \<longrightarrow> ?p \<in> set ps"
      using r reconcile_all_member by blast
    have f: "u_sellingPrice (p_fields ?p) = Null" "u_weightGrams (p_fields ?p) = None"
      "u_packageSize (p_fields ?p) = resolve_strict so ''packageSize'' None"
      "u_productType (p_fields ?p) = resolve_strict so ''productType'' None"
      "u_marketingName (p_fields ?p) = name"
      "u_supplierProductName (p_fields ?p) = of_field (m_supplierProductName m)"
      "u_allergens (p_fields ?p) = allergens_of (m_Ingredients m)"
      by (simp_all add: derive_strict_def Let_def v pt)
    show "\<exists>p. reconcile so lk r = Inr (Some p)
                 \<and> p_id p = r_id r
                 \<and> u_sellingPrice (p_fields p) = Null
                 \<and> u_weightGrams (p_fields p) = None
                 \<and> u_packageSize (p_fields p) = resolve_strict so ''packageSize'' None
                 \<and> u_productType (p_fields p) = resolve_strict so ''productType'' None
                 \<and> u_marketingName (p_fields p) = name
                 \<and> u_supplierProductName (p_fields p) = of_field (m_supplierProductName m)
                 \<and> u_allergens (p_fields p) = allergens_of (m_Ingredients m)
                 \<and> (\<forall>rs ps. r \<in> set rs \<and> reconcile_all so lk rs [] = Inr ps \<longrightarrow> p \<in> set ps)"
      using r m f by (intro exI [of _ ?p]) simp
  qed
qed

theorem unrecognized_suffix_null_witness:
  "variantSuffix_of ''Product-z500'' = Some ''z500''
   \<and> variant_rule demo_mtb (variantSuffix_of ''Product-z500'')
       = \<lparr>packageSize = None, sellingPrice = Null, weightGrams = None\<rparr>
   \<and> (\<exists>p. reconcile demo_options (mtbLookup_of [demo_mtb]) (demo_linked (Some ''Product-z500''))
            = Inr (Some p)
          \<and> u_sellingPrice (p_fields p) = Null \<and> u_weightGrams (p_fields p) = None
          \<and> u_marketingName (p_fields p) = ''Product-z500'')"
proof -
  have h: "variantSuffix_of ''Product-z500''
             \<notin> {Some ''z450'', Some ''z1000'', Some ''nb175'', Some ''nb365''}"
    by (simp add: suffix_Product_z500)
  have l: "s_linkedBaseProductId (r_fields (demo_linked (Some ''Product-z500''))) = Some ''BP1''
           \<and> ''BP1'' \<noteq> []
           \<and> mtbLookup_of [demo_mtb] (Some ''BP1'') = Some demo_mtb
           \<and> s_internalName (r_fields (demo_linked (Some ''Product-z500''))) = Some ''Product-z500''"
    by (simp add: demo_linked_def demo_lookup)
  show ?thesis
    using unrecognized_suffix_null [OF h, of demo_mtb "demo_linked (Some ''Product-z500'')"
            "''BP1''" "mtbLookup_of [demo_mtb]" demo_options] l suffix_Product_z500
    by blast
qed

section \<open>Category\<close>

lemma category_of_cases: "category_of pt g \<in> {''Nut Butters'', ''Mixes'', ''Whole Nuts''}"
  by (simp add: category_of_def)

lemma demo_no_suffix: "variantSuffix_of ''Product'' = None"
  by code_simp

lemma demo_category_Mixes:
  "resolve_strict demo_options ''category''
     (Some (if includes_str (baseProductGroupText demo_mtb) ''mix'' then ''Mixes'' else ''Whole Nuts''))
     = Some (OptionRef ''selMix'')
   \<and> resolve_strict demo_options ''productType'' None = None
   \<and> resolve_strict demo_options ''packageSize'' None = None"
  unfolding demo_options_def by code_simp

text \<open>
  Claim C10. For every record that reaches derivation the derived category is one of
  \<^verbatim>\<open>Nut Butters\<close>, \<^verbatim>\<open>Mixes\<close>, \<^verbatim>\<open>Whole Nuts\<close>, and it is what the payload's category
  is resolved from. Without a known variant suffix the package size is \<^verbatim>\<open>null\<close>, the
  product type is \<^verbatim>\<open>null\<close>, and the category is \<^verbatim>\<open>Mixes\<close> if the lower-cased group
  text contains \<^verbatim>\<open>mix\<close> and \<^verbatim>\<open>Whole Nuts\<close> otherwise. The same holds for the
  single-record endpoint. (The witness is a payload with a resolved category and
  neither package size nor product type.)
\<close>

theorem category_total:
  "category_of (productType_of (packageSize (variant_rule m (variantSuffix_of name))))
       (baseProductGroupText m) \<in> {''Nut Butters'', ''Mixes'', ''Whole Nuts''}
   \<and> u_category (derive_strict so m name sptId)
       = resolve_strict so ''category''
           (Some (category_of (productType_of (packageSize (variant_rule m (variantSuffix_of name))))
                    (baseProductGroupText m)))
   \<and> (variantSuffix_of name \<notin> {Some ''z450'', Some ''z1000'', Some ''nb175'', Some ''nb365''}
        \<longrightarrow> category_of (productType_of (packageSize (variant_rule m (variantSuffix_of name))))
              (baseProductGroupText m)
              = (if includes_str (baseProductGroupText m) ''mix'' then ''Mixes'' else ''Whole Nuts'')
          \<and> u_productType (derive_strict so m name sptId) = resolve_strict so ''productType'' None
          \<and> u_packageSize (derive_strict so m name sptId) = resolve_strict so ''packageSize'' None)
   \<and> category_single pt g \<in> {''Nut Butters'', ''Mixes'', ''Whole Nuts''}
   \<and> category_single (productType_of None) g
       = (if includes_str (case g of None \<Rightarrow> [] | Some t \<Rightarrow> toLowerCase t) ''mix''
          then ''Mixes'' else ''Whole Nuts'')"
proof -
  have pt: "productType_of None = None" by (simp add: productType_of_def)
  have v: "variantSuffix_of name \<notin> {Some ''z450'', Some ''z1000'', Some ''nb175'', Some ''nb365''}
        \<Longrightarrow> packageSize (variant_rule m (variantSuffix_of name)) = None"
    by (simp add: variant_rule_def)
  have a: "category_of (productType_of (packageSize (variant_rule m (variantSuffix_of name))))
       (baseProductGroupText m) \<in> {''Nut Butters'', ''Mixes'', ''Whole Nuts''}"
    by (simp add: category_of_def)
  have b: "u_category (derive_strict so m name sptId)
       = resolve_strict so ''category''
           (Some (category_of (productType_of (packageSize (variant_rule m (variantSuffix_of name))))
                    (baseProductGroupText m)))"
    by (simp add: derive_strict_def Let_def)
  have c: "variantSuffix_of name \<notin> {Some ''z450'', Some ''z1000'', Some ''nb175'', Some ''nb365''}
        \<longrightarrow> category_of (productType_of (packageSize (variant_rule m (variantSuffix_of name))))
              (baseProductGroupText m)
              = (if includes_str (baseProductGroupText m) ''mix'' then ''Mixes'' else ''Whole Nuts'')
          \<and> u_productType (derive_strict so m name sptId) = resolve_strict so ''productType'' None
          \<and> u_packageSize (derive_strict so m name sptId) = resolve_strict so ''packageSize'' None"
  proof
    assume h: "variantSuffix_of name \<notin> {Some ''z450'', Some ''z1000'', Some ''nb175'', Some ''nb365''}"
    show "category_of (productType_of (packageSize (variant_rule m (variantSuffix_of name))))
              (baseProductGroupText m)
              = (if includes_str (baseProductGroupText m) ''mix'' then ''Mixes'' else ''Whole Nuts'')
          \<and> u_productType (derive_strict so m name sptId) = resolve_strict so ''productType'' None
          \<and> u_packageSize (derive_strict so m name sptId) = resolve_strict so ''packageSize'' None"
      by (simp add: v [OF h] pt category_of_def derive_strict_def Let_def)
  qed
  have d: "category_single pt g \<in> {''Nut Butters'', ''Mixes'', ''Whole Nuts''}"
    by (simp add: category_single_def category_of_def)
  have e: "category_single (productType_of None) g
       = (if includes_str (case g of None \<Rightarrow> [] | Some t \<Rightarrow> toLowerCase t) ''mix''
          then ''Mixes'' else ''Whole Nuts'')"
    by (simp add: category_single_def category_of_def pt)
  from a b c d e show ?thesis by blast
qed

theorem category_total_witness:
  "u_category (derive_strict demo_options demo_mtb ''Product'' (Some ''SPT1''))
     = Some (OptionRef ''selMix'')
   \<and> u_productType (derive_strict demo_options demo_mtb ''Product'' (Some ''SPT1'')) = None
   \<and> u_packageSize (derive_strict demo_options demo_mtb ''Product'' (Some ''SPT1'')) = None"
proof -
  have h: "variantSuffix_of ''Product''
             \<notin> {Some ''z450'', Some ''z1000'', Some ''nb175'', Some ''nb365''}"
    by (simp add: demo_no_suffix)
  show ?thesis
    using category_total [of demo_mtb "''Product''" demo_options "Some ''SPT1''"] h
      demo_category_Mixes
    by simp
qed

section \<open>The write loop\<close>

lemma requests_after_ok [simp]: "requests (after_ok ps i st) = requests st @ [take 10 (drop i ps)]"
  by (simp add: after_ok_def push_def)

lemma committed_after_ok [simp]: "committed (after_ok ps i st) = committed st @ [take 10 (drop i ps)]"
  by (simp add: after_ok_def push_def)

lemma update_batches_step_fail:
  assumes "i < length ps" "patch (length (requests st)) (take 10 (drop i ps)) = Some body"
  shows "update_batches patch ps i st =
           (Some (Error (''Failed to update batch: '' @ body)),
            (push (''Updating batch of '' @ show_nat (length (take 10 (drop i ps))) @ '' records...'') st)
              \<lparr>requests := requests st @ [take 10 (drop i ps)]\<rparr>)"
  using assms by (subst update_batches.simps) (simp add: Let_def push_def)

lemma update_batches_step_ok:
  assumes "i < length ps" "patch (length (requests st)) (take 10 (drop i ps)) = None"
  shows "update_batches patch ps i st = update_batches patch ps (i + 10) (after_ok ps i st)"
  using assms by (subst update_batches.simps) (simp add: Let_def push_def after_ok_def)

lemma update_batches_done:
  "\<not> i < length ps \<Longrightarrow> update_batches patch ps i st = (None, st)"
  by (subst update_batches.simps) simp

lemma requests_bounded:
  "\<forall>b \<in> set (requests st). b \<noteq> [] \<and> length b \<le> 10 \<Longrightarrow>
   \<forall>b \<in> set (requests (snd (update_batches patch ps i st))). b \<noteq> [] \<and> length b \<le> 10"
proof (induction "length ps - i" arbitrary: i st rule: less_induct)
  case less
  show ?case
  proof (cases "i < length ps")
    case False
    then show ?thesis using less.prems by (simp add: update_batches_done)
  next
    case True
    then have ne: "take 10 (drop i ps) \<noteq> []" by simp
    show ?thesis
    proof (cases "patch (length (requests st)) (take 10 (drop i ps))")
      case (Some body)
      show ?thesis
        unfolding update_batches_step_fail [where patch = patch and st = st, OF True Some]
        using less.prems ne by (simp add: push_def)
    next
      case None
      have eq: "update_batches patch ps i st = update_batches patch ps (i + 10) (after_ok ps i st)"
        by (rule update_batches_step_ok [where patch = patch and st = st, OF True None])
      have "length ps - (i + 10) < length ps - i" using True by simp
      moreover have "\<forall>b \<in> set (requests (after_ok ps i st)). b \<noteq> [] \<and> length b \<le> 10"
        using less.prems ne by simp
      ultimately show ?thesis unfolding eq by (rule less.hyps)
    qed
  qed
qed

lemma requests_consecutive:
  "concat (requests st) = take i ps \<Longrightarrow>
   (\<exists>n. concat (requests (snd (update_batches patch ps i st))) = take n ps)
   \<and> (fst (update_batches patch ps i st) = None
        \<longrightarrow> concat (requests (snd (update_batches patch ps i st))) = ps)"
proof (induction "length ps - i" arbitrary: i st rule: less_induct)
  case less
  show ?case
  proof (cases "i < length ps")
    case False
    then have all: "concat (requests st) = ps" using less.prems by simp
    have "\<exists>n. concat (requests st) = take n ps"
      using less.prems by (rule exI)
    then show ?thesis using False all by (simp add: update_batches_done)
  next
    case True
    have step: "take i ps @ take 10 (drop i ps) = take (i + 10) ps"
      by (simp add: take_add)
    show ?thesis
    proof (cases "patch (length (requests st)) (take 10 (drop i ps))")
      case (Some body)
      have "concat (requests st @ [take 10 (drop i ps)]) = take (i + 10) ps"
        using less.prems step by simp
      then show ?thesis
        unfolding update_batches_step_fail [where patch = patch and st = st, OF True Some] by (auto simp: push_def)
    next
      case None
      have eq: "update_batches patch ps i st = update_batches patch ps (i + 10) (after_ok ps i st)"
        by (rule update_batches_step_ok [where patch = patch and st = st, OF True None])
      have "length ps - (i + 10) < length ps - i" using True by simp
      moreover have "concat (requests (after_ok ps i st)) = take (i + 10) ps"
        using less.prems step by simp
      ultimately show ?thesis unfolding eq by (rule less.hyps)
    qed
  qed
qed

lemma full_chunks_before_last:
  "\<forall>b \<in> set (requests st). length b = 10 \<Longrightarrow>
   \<forall>b \<in> set (butlast (requests (snd (update_batches patch ps i st)))). length b = 10"
proof (induction "length ps - i" arbitrary: i st rule: less_induct)
  case less
  show ?case
  proof (cases "i < length ps")
    case False
    then show ?thesis using less.prems by (auto simp: update_batches_done dest: in_set_butlastD)
  next
    case True
    show ?thesis
    proof (cases "patch (length (requests st)) (take 10 (drop i ps))")
      case (Some body)
      show ?thesis
        unfolding update_batches_step_fail [where patch = patch and st = st, OF True Some]
        using less.prems by (simp add: push_def)
    next
      case None
      have eq: "update_batches patch ps i st = update_batches patch ps (i + 10) (after_ok ps i st)"
        by (rule update_batches_step_ok [where patch = patch and st = st, OF True None])
      show ?thesis
      proof (cases "i + 10 < length ps")
        case False
        then show ?thesis
          unfolding eq using less.prems by (simp add: update_batches_done)
      next
        case more: True
        have "length ps - (i + 10) < length ps - i" using True by simp
        moreover have "\<forall>b \<in> set (requests (after_ok ps i st)). length b = 10"
          using less.prems more by simp
        ultimately show ?thesis unfolding eq by (rule less.hyps)
      qed
    qed
  qed
qed

lemma sizes_23:
  assumes len: "length ps = 23" and ok: "\<forall>k b. patch k b = None"
  shows "map length (requests (snd (update_batches patch ps 0 st)))
           = map length (requests st) @ [10, 10, 3]
         \<and> fst (update_batches patch ps 0 st) = None"
proof -
  let ?s1 = "after_ok ps 0 st"
  let ?s2 = "after_ok ps 10 ?s1"
  let ?s3 = "after_ok ps 20 ?s2"
  have e0: "update_batches patch ps 0 st = update_batches patch ps 10 ?s1"
    using update_batches_step_ok [where patch = patch and st = st and i = 0 and ps = ps] len ok
    by simp
  have e1: "update_batches patch ps 10 ?s1 = update_batches patch ps 20 ?s2"
    using update_batches_step_ok [where patch = patch and st = ?s1 and i = 10 and ps = ps] len ok
    by simp
  have e2: "update_batches patch ps 20 ?s2 = update_batches patch ps 30 ?s3"
    using update_batches_step_ok [where patch = patch and st = ?s2 and i = 20 and ps = ps] len ok
    by simp
  have e3: "update_batches patch ps 30 ?s3 = (None, ?s3)"
    using len by (simp add: update_batches_done)
  show ?thesis
    unfolding e0 e1 e2 e3 using len by simp
qed

lemma update_batches_fails_at:
  assumes "10 * k < length ps"
    and "\<forall>q<k. patch q (take 10 (drop (10 * q) ps)) = None"
    and "patch k (take 10 (drop (10 * k) ps)) = Some body"
    and "j \<le> k" and "length (requests st) = j"
  shows "fst (update_batches patch ps (10 * j) st)
           = Some (Error (''Failed to update batch: '' @ body))
       \<and> requests (snd (update_batches patch ps (10 * j) st))
           = requests st @ map (\<lambda>q. take 10 (drop (10 * q) ps)) [j..<Suc k]
       \<and> committed (snd (update_batches patch ps (10 * j) st))
           = committed st @ map (\<lambda>q. take 10 (drop (10 * q) ps)) [j..<k]"
  using assms(4,5)
proof (induction "k - j" arbitrary: j st)
  case 0
  then have jk: "j = k" by simp
  have lt: "10 * j < length ps" using assms(1) jk by simp
  have f: "patch (length (requests st)) (take 10 (drop (10 * j) ps)) = Some body"
    using assms(3) jk "0.prems" by simp
  show ?case
    unfolding update_batches_step_fail [where patch = patch and st = st, OF lt f]
    using jk by (simp add: push_def)
next
  case (Suc n)
  then have jk: "j < k" by simp
  have lt: "10 * j < length ps" using assms(1) jk by simp
  have f: "patch (length (requests st)) (take 10 (drop (10 * j) ps)) = None"
    using assms(2) jk Suc.prems by simp
  have eq: "update_batches patch ps (10 * j) st
              = update_batches patch ps (10 * Suc j) (after_ok ps (10 * j) st)"
    using update_batches_step_ok [where patch = patch and st = st, OF lt f]
    by (simp add: add.commute)
  have n: "n = k - Suc j" using Suc.hyps(2) by simp
  have le: "Suc j \<le> k" using jk by simp
  have len: "length (requests (after_ok ps (10 * j) st)) = Suc j"
    using Suc.prems by simp
  have ih: "fst (update_batches patch ps (10 * Suc j) (after_ok ps (10 * j) st))
           = Some (Error (''Failed to update batch: '' @ body))
       \<and> requests (snd (update_batches patch ps (10 * Suc j) (after_ok ps (10 * j) st)))
           = requests (after_ok ps (10 * j) st)
               @ map (\<lambda>q. take 10 (drop (10 * q) ps)) [Suc j..<Suc k]
       \<and> committed (snd (update_batches patch ps (10 * Suc j) (after_ok ps (10 * j) st)))
           = committed (after_ok ps (10 * j) st)
               @ map (\<lambda>q. take 10 (drop (10 * q) ps)) [Suc j..<k]"
    by (rule Suc.hyps(1) [OF n le len])
  have u1: "[j..<Suc k] = j # [Suc j..<Suc k]"
    using jk by (simp add: upt_conv_Cons)
  have u2: "[j..<k] = j # [Suc j..<k]"
    using jk by (simp add: upt_conv_Cons)
  show ?case
    unfolding eq u1 u2 using ih by (simp del: upt_Suc mult_Suc_right)
qed

lemma update_batches_all_ok:
  "\<forall>k b. patch k b = None \<Longrightarrow> fst (update_batches patch ps i st) = None"
proof (induction "length ps - i" arbitrary: i st rule: less_induct)
  case less
  show ?case
  proof (cases "i < length ps")
    case False
    then show ?thesis by (simp add: update_batches_done)
  next
    case True
    have ok: "patch (length (requests st)) (take 10 (drop i ps)) = None"
      using less.prems by simp
    have eq: "update_batches patch ps i st = update_batches patch ps (i + 10) (after_ok ps i st)"
      by (rule update_batches_step_ok [where patch = patch and st = st, OF True ok])
    have "length ps - (i + 10) < length ps - i" using True by simp
    then show ?thesis unfolding eq using less.prems by (rule less.hyps)
  qed
qed

lemma committed_all_ok:
  "\<forall>k b. patch k b = None \<Longrightarrow> committed st = requests st \<Longrightarrow>
     committed (snd (update_batches patch ps i st)) = requests (snd (update_batches patch ps i st))"
proof (induction "length ps - i" arbitrary: i st rule: less_induct)
  case less
  show ?case
  proof (cases "i < length ps")
    case False
    then show ?thesis using less.prems by (simp add: update_batches_done)
  next
    case True
    have ok: "patch (length (requests st)) (take 10 (drop i ps)) = None"
      using less.prems by simp
    have eq: "update_batches patch ps i st = update_batches patch ps (i + 10) (after_ok ps i st)"
      by (rule update_batches_step_ok [where patch = patch and st = st, OF True ok])
    have "length ps - (i + 10) < length ps - i" using True by simp
    moreover have "committed (after_ok ps i st) = requests (after_ok ps i st)"
      using less.prems by simp
    ultimately show ?thesis unfolding eq using less.prems(1) by (intro less.hyps)
  qed
qed

section \<open>The handler\<close>

lemma run_sync_write_phase:
  assumes "getSelectOptions (schema_response w) sptTableName = Inr so"
    and "spt_response w = Inr recs" and "recs \<noteq> []"
    and "mtb_response w = Inr mtbs"
    and "reconcile_all so (mtbLookup_of mtbs) recs [] = Inr ps"
  shows "run_sync w =
           (case update_batches (patch_response w) ps 0 (write_entry (length recs)) of
              (Some e, st4) \<Rightarrow> caught e st4
            | (None, st4) \<Rightarrow>
                (\<lparr>status = 200,
                  json = Success (''Successfully processed and updated ''
                                   @ show_nat (length ps) @ '' records.'')
                           (logDetails st4)\<rparr>, st4))"
  using assms by (simp add: run_sync_def Let_def push_def write_entry_def)

lemma run_sync_reconcile_error:
  assumes "getSelectOptions (schema_response w) sptTableName = Inr so"
    and "spt_response w = Inr recs" and "recs \<noteq> []"
    and "mtb_response w = Inr mtbs"
    and "reconcile_all so (mtbLookup_of mtbs) recs [] = Inl e"
  shows "run_sync w = caught e (write_entry (length recs))"
  using assms by (simp add: run_sync_def Let_def push_def write_entry_def)

lemma caught_simps:
  "status (fst (caught e st)) = 500"
  "json (fst (caught e st)) = Failure (error_message e) (logDetails (snd (caught e st)))"
  "logDetails (snd (caught e st)) = logDetails st @ [''ERROR: '' @ error_message e]"
  "requests (snd (caught e st)) = requests st"
  "committed (snd (caught e st)) = committed st"
  by (simp_all add: caught_def push_def Let_def)

lemma run_sync_requests_bounded:
  "\<forall>b \<in> set (requests (snd (run_sync w))). b \<noteq> [] \<and> length b \<le> 10"
proof -
  have b: "\<And>ps n. \<forall>b \<in> set (requests (snd (update_batches (patch_response w) ps 0 (write_entry n)))).
            b \<noteq> [] \<and> length b \<le> 10"
    by (rule requests_bounded) (simp add: write_entry_def)
  have c: "\<And>e st. requests (snd (caught e st)) = requests st"
    by (simp add: caught_simps)
  show ?thesis
  proof (cases "getSelectOptions (schema_response w) sptTableName")
    case (Inl e)
    then show ?thesis by (simp add: run_sync_def Let_def push_def c)
  next
    case so: (Inr so)
    show ?thesis
    proof (cases "spt_response w")
      case (Inl body)
      then show ?thesis using so by (simp add: run_sync_def Let_def push_def c)
    next
      case recs: (Inr recs)
      show ?thesis
      proof (cases "recs = []")
        case True
        then show ?thesis using so recs by (simp add: run_sync_def Let_def push_def c)
      next
        case ne: False
        show ?thesis
        proof (cases "mtb_response w")
          case (Inl body)
          then show ?thesis using so recs ne by (simp add: run_sync_def Let_def push_def c)
        next
          case mtbs: (Inr mtbs)
          show ?thesis
          proof (cases "reconcile_all so (mtbLookup_of mtbs) recs []")
            case (Inl e)
            show ?thesis
              unfolding run_sync_reconcile_error [OF so recs ne mtbs Inl]
              by (simp add: c write_entry_def)
          next
            case (Inr ps)
            show ?thesis
              unfolding run_sync_write_phase [OF so recs ne mtbs Inr]
              using b [of ps "length recs"]
              by (cases "update_batches (patch_response w) ps 0 (write_entry (length recs))")
                 (auto simp: c split: option.splits)
          qed
        qed
      qed
    qed
  qed
qed

lemma handler_requests_bounded:
  "\<forall>b \<in> set (requests (snd (handler request pw w))). b \<noteq> [] \<and> length b \<le> 10"
  using run_sync_requests_bounded by (simp add: handler_def)

lemma demo_getSelectOptions:
  "getSelectOptions (schema_response (demo_world records patch)) sptTableName = Inr demo_options"
  by (simp add: getSelectOptions_def demo_world_def sptTableName_def demo_options_def)

text \<open>
  Claim C7. A record whose \<^verbatim>\<open>linkedBaseProductId\<close> is absent, or is not a key of the
  MTB lookup map, is skipped: the loop turn neither pushes a payload nor throws, and the
  result of the whole loop (the payloads of the other records, or the error of another
  record) is what it would be without that record. The run goes on: when the other
  records reconcile to the payloads \<open>ps\<close> and the remote table accepts the writes, the
  handler answers with status 200 and has written exactly \<open>ps\<close>.
\<close>

theorem lookup_miss_skipped:
  assumes "s_linkedBaseProductId (r_fields r) = None
           \<or> (\<exists>l. s_linkedBaseProductId (r_fields r) = Some l \<and> lk (Some l) = None)"
  shows "reconcile so lk r = Inr None
       \<and> reconcile_all so lk (xs @ r # ys) acc = reconcile_all so lk (xs @ ys) acc
       \<and> (req_method request = ''POST'' \<and> req_password request = pw
            \<and> getSelectOptions (schema_response w) sptTableName = Inr so
            \<and> spt_response w = Inr (xs @ r # ys)
            \<and> mtb_response w = Inr mtbs \<and> lk = mtbLookup_of mtbs
            \<and> reconcile_all so lk (xs @ ys) [] = Inr ps
            \<and> (\<forall>k b. patch_response w k b = None)
          \<longrightarrow> status (fst (handler request pw w)) = 200
              \<and> concat (requests (snd (handler request pw w))) = ps
              \<and> committed (snd (handler request pw w)) = requests (snd (handler request pw w)))"
proof -
  have skip: "reconcile so lk r = Inr None"
    using assms by (auto simp: reconcile_def reconcile_with_def)
  have same: "reconcile_all so lk (xs @ r # ys) acc = reconcile_all so lk (xs @ ys) acc" for acc
    by (simp add: reconcile_all_append skip split: sum.splits)
  have run: "status (fst (handler request pw w)) = 200
              \<and> concat (requests (snd (handler request pw w))) = ps
              \<and> committed (snd (handler request pw w)) = requests (snd (handler request pw w))"
    if h: "req_method request = ''POST'' \<and> req_password request = pw
            \<and> getSelectOptions (schema_response w) sptTableName = Inr so
            \<and> spt_response w = Inr (xs @ r # ys)
            \<and> mtb_response w = Inr mtbs \<and> lk = mtbLookup_of mtbs
            \<and> reconcile_all so lk (xs @ ys) [] = Inr ps
            \<and> (\<forall>k b. patch_response w k b = None)"
  proof -
    let ?st3 = "write_entry (length (xs @ r # ys))"
    have "req_method request = ''POST''" and "req_password request = pw"
      using h by blast+
    then have hd: "handler request pw w = run_sync w"
      by (simp add: handler_def)
    have lk: "lk = mtbLookup_of mtbs"
      and r0: "reconcile_all so lk (xs @ ys) [] = Inr ps"
      using h by blast+
    have "reconcile_all so lk (xs @ r # ys) [] = Inr ps"
      using same [of "[]"] r0 by simp
    then have rc: "reconcile_all so (mtbLookup_of mtbs) (xs @ r # ys) [] = Inr ps"
      unfolding lk .
    have ne: "xs @ r # ys \<noteq> []" by simp
    have so: "getSelectOptions (schema_response w) sptTableName = Inr so"
      and sp: "spt_response w = Inr (xs @ r # ys)" and mt: "mtb_response w = Inr mtbs"
      and ok: "\<forall>k b. patch_response w k b = None"
      using h by blast+
    have f: "fst (update_batches (patch_response w) ps 0 ?st3) = None"
      by (rule update_batches_all_ok [OF ok])
    have c: "concat (requests ?st3) = take 0 ps" by (simp add: write_entry_def)
    have q: "concat (requests (snd (update_batches (patch_response w) ps 0 ?st3))) = ps"
      using requests_consecutive [OF c, of "patch_response w"] f by blast
    have e: "committed (snd (update_batches (patch_response w) ps 0 ?st3))
               = requests (snd (update_batches (patch_response w) ps 0 ?st3))"
      by (rule committed_all_ok [OF ok]) (simp add: write_entry_def)
    obtain st4 where st4: "update_batches (patch_response w) ps 0 ?st3 = (None, st4)"
      using f by (cases "update_batches (patch_response w) ps 0 ?st3") simp
    show ?thesis
      unfolding hd run_sync_write_phase [OF so sp ne mt rc] st4
      using q e st4 by simp
  qed
  from skip same run show ?thesis by blast
qed

theorem lookup_miss_skipped_witness:
  "reconcile demo_options (mtbLookup_of [demo_mtb]) demo_unlinked = Inr None
   \<and> reconcile_all demo_options (mtbLookup_of [demo_mtb])
        [demo_unlinked, demo_linked (Some ''Product-z450'')] []
       = Inr [demo_payload ''Product-z450'']
   \<and> status (fst (handler demo_request (Some ''secret'')
        (demo_world [demo_unlinked, demo_linked (Some ''Product-z450'')] (\<lambda>k b. None)))) = 200
   \<and> concat (requests (snd (handler demo_request (Some ''secret'')
        (demo_world [demo_unlinked, demo_linked (Some ''Product-z450'')] (\<lambda>k b. None)))))
       = [demo_payload ''Product-z450'']"
proof -
  let ?lk = "mtbLookup_of [demo_mtb]"
  let ?good = "demo_linked (Some ''Product-z450'')"
  let ?w = "demo_world [demo_unlinked, ?good] (\<lambda>k b. None)"
  have a: "s_linkedBaseProductId (r_fields demo_unlinked) = None
           \<or> (\<exists>l. s_linkedBaseProductId (r_fields demo_unlinked) = Some l \<and> ?lk (Some l) = None)"
    by (simp add: demo_unlinked_def)
  have c: "reconcile_all demo_options ?lk ([] @ [?good]) [] = Inr [demo_payload ''Product-z450'']"
    by (simp add: demo_reconcile_linked)
  have h1: "req_method demo_request = ''POST''" by (simp add: demo_request_def)
  have h2: "req_password demo_request = Some ''secret''" by (simp add: demo_request_def)
  have h3: "getSelectOptions (schema_response ?w) sptTableName = Inr demo_options"
    by (rule demo_getSelectOptions)
  have h4: "spt_response ?w = Inr ([] @ demo_unlinked # [?good])" by (simp add: demo_world_def)
  have h5: "mtb_response ?w = Inr [demo_mtb]" by (simp add: demo_world_def)
  have h6: "\<forall>k b. patch_response ?w k b = None" by (simp add: demo_world_def)
  note T = lookup_miss_skipped [OF a, of demo_options "[]" "[?good]" "[]" demo_request
            "Some ''secret''" ?w "[demo_mtb]" "[demo_payload ''Product-z450'']"]
  have t1: "reconcile demo_options ?lk demo_unlinked = Inr None"
    using T by (rule conjunct1)
  have t2: "reconcile_all demo_options ?lk ([] @ demo_unlinked # [?good]) []
              = reconcile_all demo_options ?lk ([] @ [?good]) []"
    using T by blast
  have t3: "status (fst (handler demo_request (Some ''secret'') ?w)) = 200
              \<and> concat (requests (snd (handler demo_request (Some ''secret'') ?w)))
                  = [demo_payload ''Product-z450'']"
    using T h1 h2 h3 h4 h5 h6 c by blast
  have t4: "reconcile_all demo_options ?lk [demo_unlinked, ?good] []
              = Inr [demo_payload ''Product-z450'']"
    using t2 c by simp
  from t1 t3 t4 show ?thesis by blast
qed

text \<open>
  Claim C6. No run of the handler submits an empty chunk or a chunk of more than 10
  payloads. The write loop, started with no request made, sends consecutive slices of
  the payload list in order: every chunk but the last has exactly 10 payloads, the
  chunks sent are a prefix of the list, and the whole list when no write fails. For 23
  payloads and a remote table that accepts every write there are exactly three calls,
  of 10, 10 and 3 payloads.
\<close>

theorem batches_of_ten:
  "(\<forall>b \<in> set (requests (snd (handler request pw w))). b \<noteq> [] \<and> length b \<le> 10)
   \<and> (requests st = [] \<longrightarrow>
        (\<forall>b \<in> set (requests (snd (update_batches patch ps 0 st))). b \<noteq> [] \<and> length b \<le> 10)
        \<and> (\<forall>b \<in> set (butlast (requests (snd (update_batches patch ps 0 st)))). length b = 10)
        \<and> (\<exists>n. concat (requests (snd (update_batches patch ps 0 st))) = take n ps)
        \<and> (fst (update_batches patch ps 0 st) = None
             \<longrightarrow> concat (requests (snd (update_batches patch ps 0 st))) = ps)
        \<and> (length ps = 23 \<and> (\<forall>k b. patch k b = None)
             \<longrightarrow> fst (update_batches patch ps 0 st) = None
                 \<and> map length (requests (snd (update_batches patch ps 0 st))) = [10, 10, 3]))"
proof (intro conjI impI)
  show "\<forall>b \<in> set (requests (snd (handler request pw w))). b \<noteq> [] \<and> length b \<le> 10"
    by (rule handler_requests_bounded)
next
  assume e: "requests st = []"
  show "\<forall>b \<in> set (requests (snd (update_batches patch ps 0 st))). b \<noteq> [] \<and> length b \<le> 10"
    by (rule requests_bounded) (simp add: e)
  show "\<forall>b \<in> set (butlast (requests (snd (update_batches patch ps 0 st)))). length b = 10"
    by (rule full_chunks_before_last) (simp add: e)
  have c: "concat (requests st) = take 0 ps" by (simp add: e)
  show "\<exists>n. concat (requests (snd (update_batches patch ps 0 st))) = take n ps"
    using requests_consecutive [OF c] by blast
  show "concat (requests (snd (update_batches patch ps 0 st))) = ps"
    if "fst (update_batches patch ps 0 st) = None"
    using requests_consecutive [OF c] that by blast
  show "fst (update_batches patch ps 0 st) = None"
    if "length ps = 23 \<and> (\<forall>k b. patch k b = None)"
    using sizes_23 [of ps patch st] that by simp
  show "map length (requests (snd (update_batches patch ps 0 st))) = [10, 10, 3]"
    if "length ps = 23 \<and> (\<forall>k b. patch k b = None)"
    using sizes_23 [of ps patch st] that e by simp
qed

theorem batches_of_ten_witness:
  "map length (requests (snd (update_batches (\<lambda>k b. None)
       (replicate 23 (demo_payload ''Product-z450'')) 0
       \<lparr>logDetails = [], requests = [], committed = []\<rparr>))) = [10, 10, 3]
   \<and> concat (requests (snd (update_batches (\<lambda>k b. None)
       (replicate 23 (demo_payload ''Product-z450'')) 0
       \<lparr>logDetails = [], requests = [], committed = []\<rparr>)))
     = replicate 23 (demo_payload ''Product-z450'')"
  using batches_of_ten [of demo_request None "demo_world [] (\<lambda>k b. None)"
          "\<lparr>logDetails = [], requests = [], committed = []\<rparr>" "\<lambda>k b. None"
          "replicate 23 (demo_payload ''Product-z450'')"]
  by simp

text \<open>
  Claim C8. In a run that reaches the write loop with the payloads \<open>ps\<close>, let the
  chunks before number \<open>k\<close> be accepted and chunk \<open>k\<close> be refused with the error body
  \<open>body\<close>. Then the PATCH calls made are exactly the chunks \<open>0, ..., k\<close> (none after
  \<open>k\<close>), the chunks \<open>0, ..., k - 1\<close> stay committed, the last entry of the log is the
  error message, and the response has status 500 with the error message and that log.
\<close>

theorem failed_chunk_aborts:
  assumes "req_method request = ''POST''" and "req_password request = pw"
    and "getSelectOptions (schema_response w) sptTableName = Inr so"
    and "spt_response w = Inr recs" and "recs \<noteq> []"
    and "mtb_response w = Inr mtbs"
    and "reconcile_all so (mtbLookup_of mtbs) recs [] = Inr ps"
    and "10 * k < length ps"
    and "\<forall>q<k. patch_response w q (take 10 (drop (10 * q) ps)) = None"
    and "patch_response w k (take 10 (drop (10 * k) ps)) = Some body"
  shows "requests (snd (handler request pw w))
           = map (\<lambda>q. take 10 (drop (10 * q) ps)) [0..<Suc k]
       \<and> committed (snd (handler request pw w))
           = map (\<lambda>q. take 10 (drop (10 * q) ps)) [0..<k]
       \<and> last (logDetails (snd (handler request pw w)))
           = ''ERROR: Failed to update batch: '' @ body
       \<and> fst (handler request pw w)
           = \<lparr>status = 500,
              json = Failure (''Failed to update batch: '' @ body)
                       (logDetails (snd (handler request pw w)))\<rparr>"
proof -
  let ?st3 = "write_entry (length recs)"
  let ?e = "Error (''Failed to update batch: '' @ body)"
  have h: "handler request pw w = run_sync w"
    using assms(1,2) by (simp add: handler_def)
  have len: "length (requests ?st3) = 0" by (simp add: write_entry_def)
  have u: "fst (update_batches (patch_response w) ps (10 * 0) ?st3) = Some ?e
       \<and> requests (snd (update_batches (patch_response w) ps (10 * 0) ?st3))
           = requests ?st3 @ map (\<lambda>q. take 10 (drop (10 * q) ps)) [0..<Suc k]
       \<and> committed (snd (update_batches (patch_response w) ps (10 * 0) ?st3))
           = committed ?st3 @ map (\<lambda>q. take 10 (drop (10 * q) ps)) [0..<k]"
    by (rule update_batches_fails_at
          [where patch = "patch_response w" and j = 0, OF assms(8,9,10) _ len]) simp
  obtain st4 where st4: "update_batches (patch_response w) ps 0 ?st3 = (Some ?e, st4)"
    using u by (cases "update_batches (patch_response w) ps 0 ?st3") simp
  have r: "run_sync w = caught ?e st4"
    unfolding run_sync_write_phase [OF assms(3,4,5,6,7)] st4 by simp
  have rq: "requests st4 = map (\<lambda>q. take 10 (drop (10 * q) ps)) [0..<Suc k]"
    and cm: "committed st4 = map (\<lambda>q. take 10 (drop (10 * q) ps)) [0..<k]"
    using u st4 by (simp_all add: write_entry_def del: upt_Suc)
  show ?thesis
    unfolding h r using rq cm
    by (simp add: caught_def Let_def push_def del: upt_Suc)
qed

theorem failed_chunk_aborts_witness:
  "map length (requests (snd (handler demo_request (Some ''secret'')
      (demo_world (replicate 11 (demo_linked (Some ''Product-z450'')))
         (\<lambda>k b. if k = 1 then Some ''quota'' else None))))) = [10, 1]
   \<and> map length (committed (snd (handler demo_request (Some ''secret'')
      (demo_world (replicate 11 (demo_linked (Some ''Product-z450'')))
         (\<lambda>k b. if k = 1 then Some ''quota'' else None))))) = [10]
   \<and> last (logDetails (snd (handler demo_request (Some ''secret'')
      (demo_world (replicate 11 (demo_linked (Some ''Product-z450'')))
         (\<lambda>k b. if k = 1 then Some ''quota'' else None)))))
       = ''ERROR: Failed to update batch: quota''
   \<and> status (fst (handler demo_request (Some ''secret'')
      (demo_world (replicate 11 (demo_linked (Some ''Product-z450'')))
         (\<lambda>k b. if k = 1 then Some ''quota'' else None)))) = 500"
proof -
  let ?recs = "replicate 11 (demo_linked (Some ''Product-z450''))"
  let ?patch = "\<lambda>k b. if k = (1::nat) then Some ''quota'' else None"
  let ?w = "demo_world ?recs ?patch"
  let ?ps = "replicate 11 (demo_payload ''Product-z450'')"
  have h1: "req_method demo_request = ''POST''" by (simp add: demo_request_def)
  have h2: "req_password demo_request = Some ''secret''" by (simp add: demo_request_def)
  have h3: "getSelectOptions (schema_response ?w) sptTableName = Inr demo_options"
    by (rule demo_getSelectOptions)
  have h4: "spt_response ?w = Inr ?recs" by (simp add: demo_world_def)
  have h5: "?recs \<noteq> []" by simp
  have h6: "mtb_response ?w = Inr [demo_mtb]" by (simp add: demo_world_def)
  have h7: "reconcile_all demo_options (mtbLookup_of [demo_mtb]) ?recs [] = Inr ?ps"
    using reconcile_all_replicate [OF demo_reconcile_linked [of "''Product-z450''"],
            where n = 11 and acc = "[]"]
    by simp
  have h8: "10 * 1 < length ?ps" by simp
  have h9: "\<forall>q<1. patch_response ?w q (take 10 (drop (10 * q) ?ps)) = None"
    by (simp add: demo_world_def)
  have h10: "patch_response ?w 1 (take 10 (drop (10 * 1) ?ps)) = Some ''quota''"
    by (simp add: demo_world_def)
  show ?thesis
    using failed_chunk_aborts [OF h1 h2 h3 h4 h5 h6 h7 h8 h9 h10]
    by simp
qed

text \<open>
  Claim C9. If a record of the view has a link that resolves to a master record and no
  \<^verbatim>\<open>internalName\<close>, the loop turn for it throws (it is not skipped), the run ends
  in the \<^verbatim>\<open>catch\<close> block with status 500, the error as the last log entry, and no
  PATCH call has been made: nothing is written for any record.
\<close>

theorem missing_internalName_aborts:
  assumes "req_method request = ''POST''" and "req_password request = pw"
    and "getSelectOptions (schema_response w) sptTableName = Inr so"
    and "spt_response w = Inr recs"
    and "mtb_response w = Inr mtbs"
    and "r \<in> set recs"
    and "s_linkedBaseProductId (r_fields r) = Some l" and "l \<noteq> []"
    and "mtbLookup_of mtbs (Some l) = Some m"
    and "s_internalName (r_fields r) = None"
  shows "reconcile so (mtbLookup_of mtbs) r = Inl match_on_undefined
       \<and> fst (handler request pw w)
           = \<lparr>status = 500,
              json = Failure (error_message match_on_undefined)
                       (logDetails (snd (handler request pw w)))\<rparr>
       \<and> last (logDetails (snd (handler request pw w)))
           = ''ERROR: '' @ error_message match_on_undefined
       \<and> requests (snd (handler request pw w)) = []
       \<and> committed (snd (handler request pw w)) = []"
proof -
  have h: "handler request pw w = run_sync w"
    using assms(1,2) by (simp add: handler_def)
  have t: "reconcile so (mtbLookup_of mtbs) r = Inl match_on_undefined"
    using assms(7-10) by (simp add: reconcile_def reconcile_with_def)
  have ne: "recs \<noteq> []" using assms(6) by auto
  have a: "reconcile_all so (mtbLookup_of mtbs) recs [] = Inl match_on_undefined"
    by (rule reconcile_all_error [OF assms(6) t])
  have r: "run_sync w = caught match_on_undefined (write_entry (length recs))"
    by (rule run_sync_reconcile_error [OF assms(3,4) ne assms(5) a])
  show ?thesis
    unfolding h r using t by (simp add: caught_def Let_def push_def write_entry_def)
qed

theorem missing_internalName_aborts_witness:
  "reconcile demo_options (mtbLookup_of [demo_mtb]) (demo_linked None) = Inl match_on_undefined
   \<and> status (fst (handler demo_request (Some ''secret'')
        (demo_world [demo_linked (Some ''Product-z450''), demo_linked None] (\<lambda>k b. None)))) = 500
   \<and> requests (snd (handler demo_request (Some ''secret'')
        (demo_world [demo_linked (Some ''Product-z450''), demo_linked None] (\<lambda>k b. None)))) = []"
proof -
  let ?recs = "[demo_linked (Some ''Product-z450''), demo_linked None]"
  let ?w = "demo_world ?recs (\<lambda>k b. None)"
  have h1: "req_method demo_request = ''POST''" by (simp add: demo_request_def)
  have h2: "req_password demo_request = Some ''secret''" by (simp add: demo_request_def)
  have h3: "getSelectOptions (schema_response ?w) sptTableName = Inr demo_options"
    by (rule demo_getSelectOptions)
  have h4: "spt_response ?w = Inr ?recs" by (simp add: demo_world_def)
  have h5: "mtb_response ?w = Inr [demo_mtb]" by (simp add: demo_world_def)
  have h6: "demo_linked None \<in> set ?recs" by simp
  have h7: "s_linkedBaseProductId (r_fields (demo_linked None)) = Some ''BP1''"
    by (simp add: demo_linked_def)
  have h8: "''BP1'' \<noteq> []" by simp
  have h9: "mtbLookup_of [demo_mtb] (Some ''BP1'') = Some demo_mtb" by (rule demo_lookup)
  have h10: "s_internalName (r_fields (demo_linked None)) = None"
    by (simp add: demo_linked_def)
  show ?thesis
    using missing_internalName_aborts [OF h1 h2 h3 h4 h5 h6 h7 h8 h9 h10]
    by simp
qed

lemma demo_end_to_end:
  "u_packageSize (p_fields (demo_payload ''Product-z450'')) = Some (OptionRef ''selP450'')
   \<and> u_sellingPrice (p_fields (demo_payload ''Product-z450'')) = Val (25 / 2)
   \<and> u_weightGrams (p_fields (demo_payload ''Product-z450'')) = Some 600
   \<and> u_allergens (p_fields (demo_payload ''Product-z450'')) = [''Soya'', ''Milk'']
   \<and> u_imageUrl (p_fields (demo_payload ''Product-z450'')) = ''/images/SPT1.jpg''"
  unfolding demo_payload_def demo_options_def by code_simp

end
